theory Spec2Isabelle
  imports Complex_Main "HOL-Library.Sublist"
begin

section \<open>Constants (constants.ts)\<close>

definition MAX_DISTANCE_METERS :: real where
  "MAX_DISTANCE_METERS = 50"

definition QR_REFRESH_INTERVAL_MS :: int where
  "QR_REFRESH_INTERVAL_MS = 10000"

definition MAX_FACULTY_MOVEMENT_METERS :: real where
  "MAX_FACULTY_MOVEMENT_METERS = 100"

definition RETRY_CONFIDENCE_THRESHOLD :: real where
  "RETRY_CONFIDENCE_THRESHOLD = 75 / 100"

definition DEFAULT_CLASS_DURATION_MINS :: int where
  "DEFAULT_CLASS_DURATION_MINS = 45"

text \<open>Local constant of \<^verbatim>\<open>AttendanceDashboard\<close> (StudentPortal.tsx, line 248).\<close>

definition CONFIDENCE_THRESHOLD :: real where
  "CONFIDENCE_THRESHOLD = 9 / 10"

section \<open>Data model (types.ts)\<close>

text \<open>
  JavaScript numbers that the code only compares with each other (distances, confidences)
  are reals here; epoch milliseconds and minute counts are integers. Only order
  comparisons are made on them, and these are exact on doubles.
\<close>

record LocationCoordinate =
  latitude :: real
  longitude :: real

record SessionData =
  location :: LocationCoordinate
  timestamp :: int

record TimetableEntry =
  entry_id :: string
  day :: string
  time :: string
  subject :: string
  department :: string
  facultyId :: string
  facultyName :: string
  duration :: int

datatype presence = Present | Absent

text \<open>An attendance record as it is written (\<^verbatim>\<open>Omit<AttendanceRecord, 'id'>\<close>); the
  document id is given by the store.\<close>

record AttendanceRecord =
  studentId :: string
  studentName :: string
  rec_subject :: string
  date :: string
  rec_status :: presence

record Student =
  uid :: string
  student_name :: string
  registeredFace :: string

record VerificationResult =
  match :: bool
  confidence :: real

text \<open>What \<^verbatim>\<open>new Date()\<close> is asked for: \<^verbatim>\<open>getDay()\<close> (0 is Sunday),
  \<^verbatim>\<open>getHours()\<close> and \<^verbatim>\<open>getMinutes()\<close>.\<close>

record clock =
  getDay :: nat
  getHours :: nat
  getMinutes :: nat

section \<open>Errors and status messages\<close>

text \<open>
  Every \<^verbatim>\<open>throw new Error(...)\<close> of the two portals is a constructor. The messages that
  print a rounded number carry the number itself.
\<close>

datatype error =
    JsonSyntaxError
  | InvalidQrData
  | QrExpired
  | LocationError string
  | TooFar real
  | SessionNotFound
  | VerifyFaceError string
  | NoClassScheduled
  | FaceNotRecognized real
  | ConfidenceTooLow real
  | FirebaseNotInitialized
  | StoreError string
  | OperationCancelled

datatype status_msg =
    Blank
  | LocationVerified
  | AttendanceMarked string
  | AlmostThere real
  | ConfigurationError
  | ErrorMsg error

section \<open>The attendance store (AppContext: addAttendanceRecord)\<close>

text \<open>
  The \<^verbatim>\<open>attendance\<close> collection is a list of documents (id, record); \<^verbatim>\<open>db\<close> is
  \<open>None\<close> when Firebase is not configured. The outcome of \<^verbatim>\<open>addDoc\<close> is an input:
  \<open>Inl msg\<close> when the promise rejects, \<open>Inr i\<close> when the document is created under the
  id \<open>i\<close>.
\<close>

type_synonym firestore = "(string \<times> AttendanceRecord) list option"

definition addAttendanceRecord ::
  "firestore \<Rightarrow> (string + string) \<Rightarrow> AttendanceRecord \<Rightarrow> error + firestore" where
  "addAttendanceRecord db addDoc_result record =
     (case db of
        None \<Rightarrow> Inl FirebaseNotInitialized
      | Some docs \<Rightarrow>
          (case addDoc_result of
             Inl msg \<Rightarrow> Inl (StoreError msg)
           | Inr new_id \<Rightarrow> Inr (Some (docs @ [(new_id, record)]))))"

section \<open>Student portal: the QR scan (handleQrScan)\<close>

record dashboard =
  isLoading :: bool
  status :: status_msg
  showFaceCapture :: bool
  showScanner :: bool
  scannedSession :: "SessionData option"
  retryAttempted :: bool
  showApiKeyInput :: bool

text \<open>
  The scanned string after \<^verbatim>\<open>JSON.parse\<close>: either the parse throws (or gives a value
  without properties, whose read throws), or it gives an object whose \<^verbatim>\<open>location\<close>
  and \<^verbatim>\<open>timestamp\<close> may be absent. A timestamp of 0 is falsy, like an absent one.
\<close>

datatype qr_payload = NotJson | Payload "LocationCoordinate option" "int option"

text \<open>
  The body of the \<^verbatim>\<open>try\<close> block. \<open>calculateDistance\<close> is the helper of
  locationService.ts, a parameter here; \<open>now_ms\<close> is \<^verbatim>\<open>Date.now()\<close>;
  \<open>getCurrentLocation_result\<close> is what the location promise settles to.
\<close>

definition qr_scan_try ::
  "(LocationCoordinate \<Rightarrow> LocationCoordinate \<Rightarrow> real) \<Rightarrow> int \<Rightarrow>
   (string + LocationCoordinate) \<Rightarrow> qr_payload \<Rightarrow> error + SessionData" where
  "qr_scan_try calculateDistance now_ms getCurrentLocation_result data =
     (case data of
        NotJson \<Rightarrow> Inl JsonSyntaxError
      | Payload None _ \<Rightarrow> Inl InvalidQrData
      | Payload (Some l) None \<Rightarrow> Inl InvalidQrData
      | Payload (Some l) (Some t) \<Rightarrow>
          if t = 0 then Inl InvalidQrData
          else if now_ms - t > QR_REFRESH_INTERVAL_MS + 5000 then Inl QrExpired
          else
            (case getCurrentLocation_result of
               Inl msg \<Rightarrow> Inl (LocationError msg)
             | Inr studentLocation \<Rightarrow>
                 (let distance = calculateDistance studentLocation l in
                  if distance > MAX_DISTANCE_METERS then Inl (TooFar distance)
                  else Inr \<lparr>location = l, timestamp = t\<rparr>)))"

definition handleQrScan ::
  "(LocationCoordinate \<Rightarrow> LocationCoordinate \<Rightarrow> real) \<Rightarrow> int \<Rightarrow>
   (string + LocationCoordinate) \<Rightarrow> qr_payload \<Rightarrow> dashboard \<Rightarrow> dashboard" where
  "handleQrScan calculateDistance now_ms getCurrentLocation_result data ui =
     (let ui1 = ui\<lparr>showScanner := False, isLoading := True, retryAttempted := False\<rparr> in
      case qr_scan_try calculateDistance now_ms getCurrentLocation_result data of
        Inr sessionData \<Rightarrow>
          ui1\<lparr>scannedSession := Some sessionData, status := LocationVerified,
              showFaceCapture := True\<rparr>
      | Inl err \<Rightarrow> ui1\<lparr>status := ErrorMsg err, isLoading := False\<rparr>)"

section \<open>Times of day\<close>

text \<open>
  A timetable time is the value of an \<^verbatim>\<open><input type="time">\<close>, a string \<^verbatim>\<open>HH:MM\<close>.
  \<open>split_on\<close> is \<^verbatim>\<open>String.prototype.split\<close> with a one-character separator.
  \<open>Number_js\<close> is \<^verbatim>\<open>Number\<close> on strings of decimal digits (the empty string is 0);
  \<open>None\<close> is \<^verbatim>\<open>NaN\<close>. JavaScript's \<^verbatim>\<open>Number\<close> also reads signs, blanks, fractions
  and exponents, which a time input never produces: the results below are stated for
  times of the form \<^verbatim>\<open>HH:MM\<close> (\<open>valid_time\<close>).
\<close>

definition is_digit :: "char \<Rightarrow> bool" where
  "is_digit c = (48 \<le> (of_char c :: nat) \<and> (of_char c :: nat) \<le> 57)"

definition digit_val :: "char \<Rightarrow> int" where
  "digit_val c = int (of_char c) - 48"

fun split_on :: "char \<Rightarrow> string \<Rightarrow> string list" where
  "split_on sep [] = [Nil]"
| "split_on sep (c # cs) =
     (if c = sep then [] # split_on sep cs
      else (case split_on sep cs of [] \<Rightarrow> [c # Nil] | p # ps \<Rightarrow> (c # p) # ps))"

definition Number_js :: "string \<Rightarrow> int option" where
  "Number_js s =
     (if list_all is_digit s then Some (foldl (\<lambda>acc c. 10 * acc + digit_val c) 0 s)
      else None)"

text \<open>\<^verbatim>\<open>const [h, m] = t.split(':').map(Number); return h * 60 + m;\<close> A missing part
  is \<^verbatim>\<open>undefined\<close> and makes the sum \<^verbatim>\<open>NaN\<close>.\<close>

definition timeToMinutes :: "string \<Rightarrow> int option" where
  "timeToMinutes t =
     (case map Number_js (split_on CHR '':'' t) of
        Some h # Some m # _ \<Rightarrow> Some (h * 60 + m)
      | _ \<Rightarrow> None)"

definition valid_time :: "string \<Rightarrow> bool" where
  "valid_time t =
     (case t of
        [a, b, c, d, e] \<Rightarrow>
          is_digit a \<and> is_digit b \<and> c = CHR '':'' \<and> is_digit d \<and> is_digit e \<and>
          10 * digit_val a + digit_val b < 24 \<and> 10 * digit_val d + digit_val e < 60
      | _ \<Rightarrow> False)"

text \<open>
  \<^verbatim>\<open>new Date(`1970-01-01T${t}:00`)\<close> as milliseconds after local midnight: defined for
  \<^verbatim>\<open>HH:MM\<close> (and for \<^verbatim>\<open>24:00\<close>, which the date format admits), an invalid date
  (\<open>None\<close>) otherwise.
\<close>

definition date_ms :: "string \<Rightarrow> int option" where
  "date_ms t =
     (case t of
        [a, b, c, d, e] \<Rightarrow>
          (let h = 10 * digit_val a + digit_val b; m = 10 * digit_val d + digit_val e in
           if is_digit a \<and> is_digit b \<and> c = CHR '':'' \<and> is_digit d \<and> is_digit e \<and>
              (h < 24 \<and> m < 60 \<or> h = 24 \<and> m = 0)
           then Some ((h * 60 + m) * 60000) else None)
      | _ \<Rightarrow> None)"

text \<open>
  \<^verbatim>\<open>a.localeCompare(b)\<close> on strings of digits and colons of the same shape, where
  collation is the order of the character codes, position by position.
\<close>

fun localeCompare :: "string \<Rightarrow> string \<Rightarrow> int" where
  "localeCompare [] [] = 0"
| "localeCompare [] (y # ys) = - 1"
| "localeCompare (x # xs) [] = 1"
| "localeCompare (x # xs) (y # ys) =
     (if (of_char x :: nat) < of_char y then - 1
      else if (of_char y :: nat) < of_char x then 1
      else localeCompare xs ys)"

text \<open>
  \<^verbatim>\<open>Array.prototype.sort(cmp)\<close> is stable: with a consistent comparator every stable
  sort returns the list that insertion before the first element not smaller returns.
\<close>

fun insert_by :: "('a \<Rightarrow> 'a \<Rightarrow> int) \<Rightarrow> 'a \<Rightarrow> 'a list \<Rightarrow> 'a list" where
  "insert_by cmp x [] = [x]"
| "insert_by cmp x (y # ys) =
     (if cmp x y \<le> 0 then x # y # ys else y # insert_by cmp x ys)"

definition sort_by :: "('a \<Rightarrow> 'a \<Rightarrow> int) \<Rightarrow> 'a list \<Rightarrow> 'a list" where
  "sort_by cmp xs = foldr (insert_by cmp) xs []"

text \<open>\<^verbatim>\<open>entry.duration || DEFAULT_CLASS_DURATION_MINS\<close>: 0 is falsy.\<close>

definition duration_or_default :: "TimetableEntry \<Rightarrow> int" where
  "duration_or_default entry =
     (if duration entry = 0 then DEFAULT_CLASS_DURATION_MINS else duration entry)"

section \<open>Schedule status (timeUtils.ts: getScheduleStatus)\<close>

definition DAYS_OF_WEEK :: "string list" where
  "DAYS_OF_WEEK =
     [''Sunday'', ''Monday'', ''Tuesday'', ''Wednesday'', ''Thursday'', ''Friday'',
      ''Saturday'']"

record schedule_status =
  currentClassId :: "string option"
  nextClassId :: "string option"

text \<open>The comparator \<^verbatim>\<open>a.startTimeValue - b.startTimeValue\<close>; a \<^verbatim>\<open>NaN\<close> result counts
  as 0.\<close>

definition compare_start :: "TimetableEntry \<times> int option \<Rightarrow> TimetableEntry \<times> int option \<Rightarrow> int" where
  "compare_start a b =
     (case (snd a, snd b) of (Some x, Some y) \<Rightarrow> x - y | _ \<Rightarrow> 0)"

text \<open>The \<^verbatim>\<open>for (const entry of todayEntries)\<close> loop, with its two variables
  \<^verbatim>\<open>currentClassId\<close> and \<^verbatim>\<open>upcomingToday\<close>. A comparison with \<^verbatim>\<open>NaN\<close> is false.\<close>

fun today_loop ::
  "int \<Rightarrow> (TimetableEntry \<times> int option) list \<Rightarrow>
   string option \<times> (TimetableEntry \<times> int option) list \<Rightarrow>
   string option \<times> (TimetableEntry \<times> int option) list" where
  "today_loop nowTimeValue [] acc = acc"
| "today_loop nowTimeValue ((entry, None) # rest) acc = today_loop nowTimeValue rest acc"
| "today_loop nowTimeValue ((entry, Some startTime) # rest) (cur, upcomingToday) =
     (let endTime = startTime + duration_or_default entry;
          cur' = (if nowTimeValue \<ge> startTime \<and> nowTimeValue < endTime
                  then Some (entry_id entry) else cur);
          upcomingToday' = (if startTime > nowTimeValue
                            then upcomingToday @ [(entry, Some startTime)]
                            else upcomingToday)
      in today_loop nowTimeValue rest (cur', upcomingToday'))"

text \<open>The \<^verbatim>\<open>for (let i = 1; i <= 7; i++)\<close> loop over the following days; the list
  argument holds the values of \<^verbatim>\<open>i\<close> still to be tried.\<close>

fun next_day_loop :: "TimetableEntry list \<Rightarrow> nat \<Rightarrow> nat list \<Rightarrow> string option" where
  "next_day_loop timetable today [] = None"
| "next_day_loop timetable today (i # rest) =
     (let nextDay = DAYS_OF_WEEK ! ((today + i) mod 7);
          nextDayEntries =
            sort_by (\<lambda>a b. localeCompare (time a) (time b))
              (filter (\<lambda>entry. day entry = nextDay) timetable)
      in case nextDayEntries of
           [] \<Rightarrow> next_day_loop timetable today rest
         | e # _ \<Rightarrow> Some (entry_id e))"

text \<open>\<^verbatim>\<open>!nextClassId\<close>: null and the empty string are falsy.\<close>

definition falsy_id :: "string option \<Rightarrow> bool" where
  "falsy_id i = (i = None \<or> i = Some [])"

definition getScheduleStatus :: "TimetableEntry list \<Rightarrow> clock \<Rightarrow> schedule_status" where
  "getScheduleStatus timetable now =
     (let currentDay = DAYS_OF_WEEK ! getDay now;
          nowTimeValue = int (getHours now) * 60 + int (getMinutes now);
          todayEntries =
            sort_by compare_start
              (map (\<lambda>entry. (entry, timeToMinutes (time entry)))
                 (filter (\<lambda>entry. day entry = currentDay) timetable));
          (cur, upcomingToday) = today_loop nowTimeValue todayEntries (None, []);
          next = (case upcomingToday of [] \<Rightarrow> None | e # _ \<Rightarrow> Some (entry_id (fst e)));
          next' = (if falsy_id next
                   then (case next_day_loop timetable (getDay now) [1..<8] of
                           None \<Rightarrow> next | Some i \<Rightarrow> Some i)
                   else next)
      in \<lparr>currentClassId = cur, nextClassId = next'\<rparr>)"

text \<open>
  For the statements about \<open>getScheduleStatus\<close>: the start of an entry in minutes (of a
  time that parses), the minute of the day of the clock, the entries of a day, the day
  \<open>i\<close> days after today, the entries of today that start strictly after now, and what
  it is to be an earliest-starting entry of a list. A timetable is well formed when every
  time has the form \<^verbatim>\<open>HH:MM\<close> and every id is non-empty, as the time input and the
  store give them. \<open>upcoming\<close> is the test \<^verbatim>\<open>startTime > nowTimeValue\<close> of the loop.
\<close>

definition start_minute :: "TimetableEntry \<Rightarrow> int" where
  "start_minute e = (case timeToMinutes (time e) of Some s \<Rightarrow> s | None \<Rightarrow> 0)"

definition upcoming :: "int \<Rightarrow> TimetableEntry \<times> int option \<Rightarrow> bool" where
  "upcoming t p = (case snd p of Some s \<Rightarrow> s > t | None \<Rightarrow> False)"

definition well_formed :: "TimetableEntry list \<Rightarrow> bool" where
  "well_formed tt = (\<forall>e \<in> set tt. valid_time (time e) \<and> entry_id e \<noteq> [])"

definition on_day :: "TimetableEntry list \<Rightarrow> string \<Rightarrow> TimetableEntry list" where
  "on_day tt d = filter (\<lambda>e. day e = d) tt"

definition day_after :: "clock \<Rightarrow> nat \<Rightarrow> string" where
  "day_after now i = DAYS_OF_WEEK ! ((getDay now + i) mod 7)"

definition minute_of_day :: "clock \<Rightarrow> int" where
  "minute_of_day now = int (getHours now) * 60 + int (getMinutes now)"

definition later_today :: "TimetableEntry list \<Rightarrow> clock \<Rightarrow> TimetableEntry list" where
  "later_today tt now =
     filter (\<lambda>e. start_minute e > minute_of_day now) (on_day tt (DAYS_OF_WEEK ! getDay now))"

definition earliest :: "TimetableEntry list \<Rightarrow> TimetableEntry \<Rightarrow> bool" where
  "earliest es e \<longleftrightarrow> e \<in> set es \<and> (\<forall>e' \<in> set es. start_minute e \<le> start_minute e')"

section \<open>Student portal: face verification (handleVerification)\<close>

text \<open>
  \<^verbatim>\<open>timetable.find(entry => ...)\<close> of the accept branch. \<^verbatim>\<open>currentTime\<close> is the
  zero-padded \<^verbatim>\<open>HH:MM\<close> of the clock, so \<^verbatim>\<open>nowTime\<close> is that many milliseconds after
  local midnight; a comparison with an invalid date is false.
\<close>

definition in_session :: "clock \<Rightarrow> TimetableEntry \<Rightarrow> bool" where
  "in_session now entry =
     (if day entry \<noteq> DAYS_OF_WEEK ! getDay now then False
      else
        (case date_ms (time entry) of
           None \<Rightarrow> False
         | Some classTime \<Rightarrow>
             (let classDuration = duration_or_default entry;
                  endTime = classTime + classDuration * 60000;
                  nowTime = (int (getHours now) * 60 + int (getMinutes now)) * 60000
              in nowTime \<ge> classTime \<and> nowTime \<le> endTime)))"

definition find_current_class :: "TimetableEntry list \<Rightarrow> clock \<Rightarrow> TimetableEntry option" where
  "find_current_class timetable now = find (in_session now) timetable"

text \<open>The three substrings of the \<^verbatim>\<open>catch\<close> block; only a message that comes from
  outside (the matcher, the store) can contain one.\<close>

definition is_api_key_message :: "string \<Rightarrow> bool" where
  "is_api_key_message m =
     (sublist ''API key not valid'' m \<or> sublist ''API_KEY_INVALID'' m \<or>
      sublist ''Gemini API key is not configured'' m)"

definition is_api_key_error :: "error \<Rightarrow> bool" where
  "is_api_key_error err =
     (case err of
        VerifyFaceError m \<Rightarrow> is_api_key_message m
      | StoreError m \<Rightarrow> is_api_key_message m
      | _ \<Rightarrow> False)"

datatype attempt = Marked string | RetryOffered real

text \<open>
  The accept branch: the class in session is looked up and the record is written. The
  result is what is thrown or reached, and the store afterwards; \<open>today\<close> is the date
  string of the new record.
\<close>

definition mark_attendance ::
  "Student \<Rightarrow> TimetableEntry list \<Rightarrow> clock \<Rightarrow> string \<Rightarrow> (string + string) \<Rightarrow> firestore \<Rightarrow>
   (error + attempt) \<times> firestore" where
  "mark_attendance user timetable now today addDoc_result db =
     (case find_current_class timetable now of
        None \<Rightarrow> (Inl NoClassScheduled, db)
      | Some currentClass \<Rightarrow>
          (case addAttendanceRecord db addDoc_result
                  \<lparr>studentId = uid user, studentName = student_name user,
                   rec_subject = subject currentClass, date = today,
                   rec_status = Present\<rparr> of
             Inl err \<Rightarrow> (Inl err, db)
           | Inr db' \<Rightarrow> (Inr (Marked (subject currentClass)), db')))"

text \<open>
  The body of the \<^verbatim>\<open>try\<close> block. \<open>verifyFace_result\<close> is what the matcher's promise
  settles to, \<open>retried\<close> the flag \<^verbatim>\<open>retryAttempted\<close>.
\<close>

definition verification_try ::
  "Student \<Rightarrow> TimetableEntry list \<Rightarrow> (string + VerificationResult) \<Rightarrow> clock \<Rightarrow> string \<Rightarrow>
   (string + string) \<Rightarrow> bool \<Rightarrow> firestore \<Rightarrow> (error + attempt) \<times> firestore" where
  "verification_try user timetable verifyFace_result now today addDoc_result retried db =
     (case verifyFace_result of
        Inl msg \<Rightarrow> (Inl (VerifyFaceError msg), db)
      | Inr verificationResult \<Rightarrow>
          if match verificationResult \<and> confidence verificationResult \<ge> CONFIDENCE_THRESHOLD
          then mark_attendance user timetable now today addDoc_result db
          else if match verificationResult \<and>
                  confidence verificationResult \<ge> RETRY_CONFIDENCE_THRESHOLD \<and> \<not> retried
          then (Inr (RetryOffered (confidence verificationResult)), db)
          else if \<not> match verificationResult
          then (Inl (FaceNotRecognized (confidence verificationResult)), db)
          else (Inl (ConfidenceTooLow (confidence verificationResult)), db))"

definition handleVerification ::
  "Student \<Rightarrow> TimetableEntry list \<Rightarrow> (string + VerificationResult) \<Rightarrow> clock \<Rightarrow> string \<Rightarrow>
   (string + string) \<Rightarrow> dashboard \<times> firestore \<Rightarrow> dashboard \<times> firestore" where
  "handleVerification user timetable verifyFace_result now today addDoc_result s =
     (let ui = (fst s)\<lparr>showFaceCapture := False\<rparr>; db = snd s in
      case scannedSession ui of
        None \<Rightarrow> (ui\<lparr>status := ErrorMsg SessionNotFound, isLoading := False\<rparr>, db)
      | Some _ \<Rightarrow>
          (case verification_try user timetable verifyFace_result now today addDoc_result
                  (retryAttempted ui) db of
             (Inr (Marked subj), db') \<Rightarrow>
               (ui\<lparr>status := AttendanceMarked subj, retryAttempted := False,
                   isLoading := False\<rparr>, db')
           | (Inr (RetryOffered c), db') \<Rightarrow>
               (ui\<lparr>retryAttempted := True, status := AlmostThere c,
                   showFaceCapture := True, isLoading := False\<rparr>, db')
           | (Inl err, db') \<Rightarrow>
               (if is_api_key_error err
                then ui\<lparr>status := ConfigurationError, showApiKeyInput := True,
                        isLoading := False\<rparr>
                else ui\<lparr>status := ErrorMsg err, retryAttempted := False,
                        isLoading := False\<rparr>, db')))"

text \<open>
  One run of the attendee's pipeline: the scan, then one capture for as long as the
  capture dialog is open. Each capture brings what the matcher, the clock and the store
  answer to it.
\<close>

record capture =
  c_verifyFace :: "string + VerificationResult"
  c_now :: clock
  c_today :: string
  c_addDoc :: "string + string"

fun captures ::
  "Student \<Rightarrow> TimetableEntry list \<Rightarrow> capture list \<Rightarrow> dashboard \<times> firestore \<Rightarrow>
   dashboard \<times> firestore" where
  "captures user timetable [] s = s"
| "captures user timetable (c # cs) s =
     (if showFaceCapture (fst s)
      then captures user timetable cs
             (handleVerification user timetable (c_verifyFace c) (c_now c) (c_today c)
                (c_addDoc c) s)
      else s)"

definition pipeline ::
  "(LocationCoordinate \<Rightarrow> LocationCoordinate \<Rightarrow> real) \<Rightarrow> Student \<Rightarrow> TimetableEntry list \<Rightarrow>
   int \<Rightarrow> (string + LocationCoordinate) \<Rightarrow> qr_payload \<Rightarrow> capture list \<Rightarrow>
   dashboard \<times> firestore \<Rightarrow> dashboard \<times> firestore" where
  "pipeline calculateDistance user timetable now_ms getCurrentLocation_result data cs s =
     captures user timetable cs
       (handleQrScan calculateDistance now_ms getCurrentLocation_result data (fst s), snd s)"

text \<open>Two observations of a run: the dashboard reports that attendance was marked, and
  the collection has grown by exactly one document at its end.\<close>

definition attendance_marked :: "dashboard \<Rightarrow> bool" where
  "attendance_marked ui = (case status ui of AttendanceMarked _ \<Rightarrow> True | _ \<Rightarrow> False)"

definition one_more :: "firestore \<Rightarrow> firestore \<Rightarrow> bool" where
  "one_more db db' =
     (case (db, db') of
        (Some docs, Some docs') \<Rightarrow>
          length docs' = length docs + 1 \<and> take (length docs) docs' = docs
      | _ \<Rightarrow> False)"

section \<open>Faculty portal: the session and its refresh (FacultyPortal)\<close>

datatype session_error =
    MovedTooFar
  | LocationUpdateFailed string
  | StartFailed string

record faculty_portal =
  activeSession :: "SessionData option"
  initialSessionLocation :: "LocationCoordinate option"
  showFullScreenQR :: bool
  fp_error :: "session_error option"
  fp_isLoading :: bool

definition stopSession :: "faculty_portal \<Rightarrow> faculty_portal" where
  "stopSession fp =
     fp\<lparr>activeSession := None, initialSessionLocation := None, showFullScreenQR := False\<rparr>"

definition startSession ::
  "int \<Rightarrow> (string + LocationCoordinate) \<Rightarrow> faculty_portal \<Rightarrow> faculty_portal" where
  "startSession now_ms getCurrentLocation_result fp =
     (case getCurrentLocation_result of
        Inr loc \<Rightarrow>
          fp\<lparr>fp_error := None,
             activeSession := Some \<lparr>location = loc, timestamp = now_ms\<rparr>,
             initialSessionLocation := Some loc, showFullScreenQR := True,
             fp_isLoading := False\<rparr>
      | Inl msg \<Rightarrow>
          fp\<lparr>fp_error := Some (StartFailed msg), activeSession := None,
             initialSessionLocation := None, fp_isLoading := False\<rparr>)"

text \<open>
  One firing of the \<^verbatim>\<open>setInterval\<close> callback. The effect installs the interval only
  while \<^verbatim>\<open>activeSession\<close> and \<^verbatim>\<open>initialSessionLocation\<close> are both set.
\<close>

definition locationRefresh ::
  "(LocationCoordinate \<Rightarrow> LocationCoordinate \<Rightarrow> real) \<Rightarrow> int \<Rightarrow>
   (string + LocationCoordinate) \<Rightarrow> faculty_portal \<Rightarrow> faculty_portal" where
  "locationRefresh calculateDistance now_ms getCurrentLocation_result fp =
     (case (activeSession fp, initialSessionLocation fp) of
        (Some _, Some anchor) \<Rightarrow>
          (case getCurrentLocation_result of
             Inl msg \<Rightarrow> fp\<lparr>fp_error := Some (LocationUpdateFailed msg)\<rparr>
           | Inr newLocation \<Rightarrow>
               (let distanceFromStart = calculateDistance newLocation anchor in
                if distanceFromStart > MAX_FACULTY_MOVEMENT_METERS
                then (stopSession fp)\<lparr>fp_error := Some MovedTooFar\<rparr>
                else fp\<lparr>activeSession :=
                          Some \<lparr>location = newLocation, timestamp = now_ms\<rparr>\<rparr>))
      | _ \<Rightarrow> fp)"

section \<open>Faculty portal: the timetable form (TimetableManager, AppContext)\<close>

record Faculty =
  f_uid :: string
  f_name :: string
  f_department :: string
  subjects :: "string list"

datatype rejection = PermissionDenied | OtherFailure string

text \<open>What the writes of the form depend on: whether \<^verbatim>\<open>db\<close> is set, the signed-in user
  and profile, and what the store answers (\<open>Inr i\<close>: done, \<open>i\<close> is the id of a created
  document).\<close>

record write_env =
  db_ready :: bool
  currentUser :: "string option"
  currentFaculty :: "Faculty option"
  write_result :: "rejection + string"

datatype submit_error =
    RequiredFields
  | TooManyClasses string
  | Conflict string string
  | SaveFailed string

datatype success = EntryUpdated | EntryAdded

record timetable_manager =
  f_day :: string
  f_time :: string
  f_subject :: string
  f_duration :: int
  editingEntry :: "TimetableEntry option"
  tm_error :: "submit_error option"
  successMessage :: "success option"
  tm_isLoading :: bool

definition addTimetableEntry ::
  "write_env \<Rightarrow> TimetableEntry list \<Rightarrow> string \<times> string \<times> string \<times> int \<Rightarrow>
   string + TimetableEntry list" where
  "addTimetableEntry env docs entry =
     (case entry of (e_day, e_time, e_subject, e_duration) \<Rightarrow>
      if \<not> db_ready env
      then Inl ''Database connection not available. Please reload the app.''
      else
        (case currentUser env of
           None \<Rightarrow> Inl ''Authentication error: You must be logged in.''
         | Some user_uid \<Rightarrow>
             (case currentFaculty env of
                None \<Rightarrow> Inl ''Faculty profile not loaded. Please refresh.''
              | Some fac \<Rightarrow>
                  if f_department fac = []
                  then Inl ''Configuration error: Your department is not set. Please update your profile.''
                  else
                    (let sanitizedDuration = (if e_duration = 0 then 45 else e_duration);
                         newEntry =
                           \<lparr>entry_id = [],
                            day = (if e_day = [] then ''Monday'' else e_day),
                            time = e_time, subject = e_subject,
                            department = f_department fac, facultyId = user_uid,
                            facultyName =
                              (if f_name fac = [] then ''Unknown Faculty'' else f_name fac),
                            duration = sanitizedDuration\<rparr>
                     in if e_time = [] \<or> e_subject = []
                        then Inl ''Missing required fields: Time or Subject.''
                        else
                          (case write_result env of
                             Inl PermissionDenied \<Rightarrow>
                               Inl ''Permission denied: You do not have access to modify the timetable.''
                           | Inl (OtherFailure msg) \<Rightarrow> Inl (''Database Error: '' @ msg)
                           | Inr new_id \<Rightarrow>
                               Inr (docs @ [newEntry\<lparr>entry_id := new_id\<rparr>]))))))"

definition updateTimetableEntry ::
  "write_env \<Rightarrow> TimetableEntry list \<Rightarrow> TimetableEntry \<Rightarrow> string + TimetableEntry list" where
  "updateTimetableEntry env docs entry =
     (if \<not> db_ready env then Inl ''Database not initialized.''
      else if day entry = [] \<or> time entry = [] \<or> subject entry = []
      then Inl ''Invalid data: Day, Time and Subject are required.''
      else
        (let new_duration = (if duration entry = 0 then 45 else duration entry);
             fid = (if facultyId entry = [] then None else Some (facultyId entry));
             fname = (if facultyName entry = [] then None else Some (facultyName entry));
             backfill =
               (case (currentUser env, currentFaculty env) of
                  (Some user_uid, Some fac) \<Rightarrow>
                    if fid = None \<or> fname = None then Some (user_uid, f_name fac) else None
                | _ \<Rightarrow> None);
             fid' = (case backfill of Some (u, n) \<Rightarrow> Some u | None \<Rightarrow> fid);
             fname' = (case backfill of Some (u, n) \<Rightarrow> Some n | None \<Rightarrow> fname)
         in case write_result env of
              Inl PermissionDenied \<Rightarrow>
                Inl ''Permission denied: You do not have access to update this timetable entry.''
            | Inl (OtherFailure msg) \<Rightarrow> Inl (''Update Failed: '' @ msg)
            | Inr _ \<Rightarrow>
                Inr (map (\<lambda>d. if entry_id d = entry_id entry
                               then d\<lparr>day := day entry, time := time entry,
                                     subject := subject entry, duration := new_duration,
                                     facultyId :=
                                       (case fid' of Some u \<Rightarrow> u | None \<Rightarrow> facultyId d),
                                     facultyName :=
                                       (case fname' of Some n \<Rightarrow> n | None \<Rightarrow> facultyName d)\<rparr>
                               else d) docs)))"

text \<open>The predicate of \<^verbatim>\<open>timetable.find\<close> in the overlap check; a comparison with
  \<^verbatim>\<open>NaN\<close> is false.\<close>

definition conflicts_with :: "timetable_manager \<Rightarrow> TimetableEntry \<Rightarrow> bool" where
  "conflicts_with tm entry =
     (if day entry \<noteq> f_day tm then False
      else if (case editingEntry tm of Some ed \<Rightarrow> entry_id entry = entry_id ed | None \<Rightarrow> False)
      then False
      else
        (case (timeToMinutes (f_time tm), timeToMinutes (time entry)) of
           (Some newStart, Some existStart) \<Rightarrow>
             (let newEnd = newStart + f_duration tm;
                  existDuration = duration_or_default entry;
                  existEnd = existStart + existDuration
              in newStart < existEnd \<and> existStart < newEnd)
         | _ \<Rightarrow> False))"

definition resetForm :: "string list \<Rightarrow> timetable_manager \<Rightarrow> timetable_manager" where
  "resetForm subjs tm =
     tm\<lparr>f_day := ''Monday'', f_time := [],
        f_subject := (case subjs of [] \<Rightarrow> [] | s # _ \<Rightarrow> s),
        f_duration := DEFAULT_CLASS_DURATION_MINS, editingEntry := None,
        tm_error := None\<rparr>"

text \<open>
  \<^verbatim>\<open>handleSubmit\<close>: the form and the timetable collection before, the form and the
  collection after. \<open>subjs\<close> is the \<^verbatim>\<open>subjects\<close> property of the component.
\<close>

definition handleSubmit ::
  "write_env \<Rightarrow> string list \<Rightarrow> TimetableEntry list \<Rightarrow> timetable_manager \<Rightarrow>
   timetable_manager \<times> TimetableEntry list" where
  "handleSubmit env subjs timetable tm0 =
     (let tm = tm0\<lparr>successMessage := None, tm_error := None\<rparr> in
      if f_time tm = [] \<or> f_subject tm = [] \<or> f_duration tm \<le> 0
      then (tm\<lparr>tm_error := Some RequiredFields\<rparr>, timetable)
      else if editingEntry tm = None \<and>
              length (filter (\<lambda>entry. day entry = f_day tm) timetable) \<ge> 7
      then (tm\<lparr>tm_error := Some (TooManyClasses (f_day tm))\<rparr>, timetable)
      else
        (case find (conflicts_with tm) timetable of
           Some conflictingEntry \<Rightarrow>
             (tm\<lparr>tm_error :=
                   Some (Conflict (subject conflictingEntry) (time conflictingEntry))\<rparr>,
              timetable)
         | None \<Rightarrow>
             (case editingEntry tm of
                Some ed \<Rightarrow>
                  (case updateTimetableEntry env timetable
                          (ed\<lparr>day := f_day tm, time := f_time tm, subject := f_subject tm,
                              duration := f_duration tm\<rparr>) of
                     Inr timetable' \<Rightarrow>
                       ((resetForm subjs (tm\<lparr>successMessage := Some EntryUpdated\<rparr>))
                          \<lparr>tm_isLoading := False\<rparr>, timetable')
                   | Inl msg \<Rightarrow>
                       (tm\<lparr>tm_error := Some (SaveFailed msg), tm_isLoading := False\<rparr>,
                        timetable))
              | None \<Rightarrow>
                  (case addTimetableEntry env timetable
                          (f_day tm, f_time tm, f_subject tm, f_duration tm) of
                     Inr timetable' \<Rightarrow>
                       ((resetForm subjs (tm\<lparr>successMessage := Some EntryAdded\<rparr>))
                          \<lparr>tm_isLoading := False\<rparr>, timetable')
                   | Inl msg \<Rightarrow>
                       (tm\<lparr>tm_error := Some (SaveFailed msg), tm_isLoading := False\<rparr>,
                        timetable)))))"


















section \<open>Bulk deletion (AppContext: deleteAllAttendanceRecords)\<close>

datatype role = StudentRole | FacultyRole

definition BATCH_SIZE :: nat where
  "BATCH_SIZE = 500"

text \<open>The \<^verbatim>\<open>for (let i = 0; i < recordsToDelete.length; i += BATCH_SIZE)\<close> loop: the
  chunks \<^verbatim>\<open>slice(i, i + BATCH_SIZE)\<close>, one batch each, in the order they are issued.\<close>

function batch_loop :: "nat \<Rightarrow> 'a list \<Rightarrow> 'a list list" where
  "batch_loop i recordsToDelete =
     (if i < length recordsToDelete
      then take BATCH_SIZE (drop i recordsToDelete) # batch_loop (i + BATCH_SIZE) recordsToDelete
      else [])"
  by pat_completeness auto
termination
  by (relation "measure (\<lambda>(i, xs). length xs - i)") (auto simp: BATCH_SIZE_def)

declare batch_loop.simps [simp del]

text \<open>
  Every \<^verbatim>\<open>batch.commit()\<close> is issued before any is awaited. The answer of the store to
  the commit of batch \<open>k\<close> is an input: the instant at which the promise settles and
  \<open>None\<close> when it is fulfilled, \<open>Some msg\<close> when it is rejected.
  \<^verbatim>\<open>Promise.all\<close> is fulfilled when every promise is, and rejected with the reason of
  the promise that is rejected first.
\<close>

fun first_rejection :: "(nat \<times> string option) list \<Rightarrow> (nat \<times> string) option" where
  "first_rejection [] = None"
| "first_rejection ((t, None) # ps) = first_rejection ps"
| "first_rejection ((t, Some msg) # ps) =
     (case first_rejection ps of
        None \<Rightarrow> Some (t, msg)
      | Some (t', msg') \<Rightarrow> if t \<le> t' then Some (t, msg) else Some (t', msg'))"

definition promise_all :: "(nat \<times> string option) list \<Rightarrow> error + unit" where
  "promise_all ps =
     (case first_rejection ps of None \<Rightarrow> Inr () | Some (t, msg) \<Rightarrow> Inl (StoreError msg))"

text \<open>The documents a list of committed batches removes: a fulfilled commit deletes the
  documents of its batch, a rejected one none.\<close>

definition committed ::
  "(nat \<times> string option) list \<Rightarrow> (string \<times> AttendanceRecord) list list \<Rightarrow>
   (string \<times> AttendanceRecord) list" where
  "committed results batches =
     concat (map snd (filter (\<lambda>(r, b). snd r = None) (zip results batches)))"

record purge_result =
  outcome :: "error + unit"
  issued :: "(string \<times> AttendanceRecord) list list"
  db_after :: firestore

definition deleteAllAttendanceRecords ::
  "firestore \<Rightarrow> role option \<Rightarrow> Faculty option \<Rightarrow> (nat \<Rightarrow> nat \<times> string option) \<Rightarrow>
   purge_result" where
  "deleteAllAttendanceRecords db userRole fac commit_result =
     (case db of
        None \<Rightarrow> \<lparr>outcome = Inl FirebaseNotInitialized, issued = [], db_after = db\<rparr>
      | Some docs \<Rightarrow>
          (case fac of
             None \<Rightarrow> \<lparr>outcome = Inl OperationCancelled, issued = [], db_after = db\<rparr>
           | Some faculty \<Rightarrow>
               if userRole \<noteq> Some FacultyRole \<or> subjects faculty = []
               then \<lparr>outcome = Inl OperationCancelled, issued = [], db_after = db\<rparr>
               else
                 (let facultySubjects = subjects faculty;
                      recordsToDelete =
                        filter (\<lambda>d. rec_subject (snd d) \<in> set facultySubjects) docs
                  in if length recordsToDelete = 0
                     then \<lparr>outcome = Inr (), issued = [], db_after = db\<rparr>
                     else
                       (let batches = batch_loop 0 recordsToDelete;
                            results = map commit_result [0..<length batches];
                            gone = map fst (committed results batches)
                        in \<lparr>outcome = promise_all results, issued = batches,
                            db_after = Some (filter (\<lambda>d. fst d \<notin> set gone) docs)\<rparr>))))"

text \<open>
  What a caller of \<^verbatim>\<open>deleteAllAttendanceRecords\<close> learns about failed batches: the
  reasons carried by the rejection of the returned promise. For comparison, the reasons of
  all the commits that were rejected.
\<close>

definition reported_failures :: "purge_result \<Rightarrow> string list" where
  "reported_failures r = (case outcome r of Inl (StoreError msg) \<Rightarrow> [msg] | _ \<Rightarrow> [])"

definition failed_batches :: "(nat \<Rightarrow> nat \<times> string option) \<Rightarrow> nat \<Rightarrow> (nat \<times> string) list" where
  "failed_batches commit_result n =
     concat (map (\<lambda>k. case snd (commit_result k) of None \<Rightarrow> [] | Some msg \<Rightarrow> [(k, msg)])
               [0..<n])"

text \<open>A document is purged when a fulfilled commit holds a document of its id.\<close>

definition purged ::
  "(nat \<Rightarrow> nat \<times> string option) \<Rightarrow> (string \<times> AttendanceRecord) list list \<Rightarrow>
   string \<times> AttendanceRecord \<Rightarrow> bool" where
  "purged commit_result batches d =
     list_ex (\<lambda>k. snd (commit_result k) = None \<and> fst d \<in> fst ` set (batches ! k))
       [0..<length batches]"

section \<open>Sample values\<close>

definition idle_dashboard :: dashboard where
  "idle_dashboard =
     \<lparr>isLoading = False, status = Blank, showFaceCapture = False, showScanner = True,
      scannedSession = None, retryAttempted = False, showApiKeyInput = False\<rparr>"

definition origin :: LocationCoordinate where
  "origin = \<lparr>latitude = 0, longitude = 0\<rparr>"

definition elsewhere :: LocationCoordinate where
  "elsewhere = \<lparr>latitude = 1, longitude = 1\<rparr>"

definition scanned_dashboard :: dashboard where
  "scanned_dashboard =
     \<lparr>isLoading = True, status = LocationVerified, showFaceCapture = True,
      showScanner = False, scannedSession = Some \<lparr>location = origin, timestamp = 1000\<rparr>,
      retryAttempted = False, showApiKeyInput = False\<rparr>"

definition asha :: Student where
  "asha = \<lparr>uid = ''u1'', student_name = ''Asha'', registeredFace = ''face''\<rparr>"

definition slot :: "string \<Rightarrow> string \<Rightarrow> string \<Rightarrow> string \<Rightarrow> int \<Rightarrow> TimetableEntry" where
  "slot i d t subj dur =
     \<lparr>entry_id = i, day = d, time = t, subject = subj, department = ''CSE'',
      facultyId = ''f1'', facultyName = ''Rao'', duration = dur\<rparr>"

definition at_clock :: "nat \<Rightarrow> nat \<Rightarrow> nat \<Rightarrow> clock" where
  "at_clock d h m = \<lparr>getDay = d, getHours = h, getMinutes = m\<rparr>"

definition running_portal :: faculty_portal where
  "running_portal =
     \<lparr>activeSession = Some \<lparr>location = origin, timestamp = 0\<rparr>,
      initialSessionLocation = Some origin, showFullScreenQR = True, fp_error = None,
      fp_isLoading = False\<rparr>"

definition monday_classes :: "TimetableEntry list" where
  "monday_classes =
     [slot ''A'' ''Monday'' ''09:00'' ''Algorithms'' 45,
      slot ''B'' ''Monday'' ''09:45'' ''Data Structures'' 45]"

definition face :: "bool \<Rightarrow> real \<Rightarrow> nat \<Rightarrow> nat \<Rightarrow> capture" where
  "face m c h mi =
     \<lparr>c_verifyFace = Inr \<lparr>match = m, confidence = c\<rparr>, c_now = at_clock 1 h mi,
      c_today = ''2024-01-01'', c_addDoc = Inr ''d1''\<rparr>"

definition full_monday :: "TimetableEntry list" where
  "full_monday =
     [slot ''m1'' ''Monday'' ''08:00'' ''Algorithms'' 45,
      slot ''m2'' ''Monday'' ''09:00'' ''Algorithms'' 45,
      slot ''m3'' ''Monday'' ''10:00'' ''Algorithms'' 45,
      slot ''m4'' ''Monday'' ''11:00'' ''Algorithms'' 45,
      slot ''m5'' ''Monday'' ''12:00'' ''Algorithms'' 45,
      slot ''m6'' ''Monday'' ''13:00'' ''Algorithms'' 45,
      slot ''m7'' ''Monday'' ''14:00'' ''Algorithms'' 45,
      slot ''t1'' ''Tuesday'' ''08:00'' ''Algorithms'' 45]"

definition rao :: Faculty where
  "rao = \<lparr>f_uid = ''f1'', f_name = ''Rao'', f_department = ''CSE'', subjects = [''Algorithms'']\<rparr>"

definition store_ok :: "string \<Rightarrow> write_env" where
  "store_ok i = \<lparr>db_ready = True, currentUser = Some ''f1'', currentFaculty = Some rao,
      write_result = Inr i\<rparr>"

definition blank_form :: timetable_manager where
  "blank_form =
     \<lparr>f_day = ''Monday'', f_time = [], f_subject = ''Algorithms'', f_duration = 45,
      editingEntry = None, tm_error = None, successMessage = None, tm_isLoading = False\<rparr>"

definition bulk_ledger :: "(string \<times> AttendanceRecord) list" where
  "bulk_ledger =
     map (\<lambda>k. (replicate k CHR ''i'',
               \<lparr>studentId = ''u1'', studentName = ''Asha'', rec_subject = ''Algorithms'',
                date = ''2024-01-01'', rec_status = Present\<rparr>)) [0..<1200]"

definition second_fails :: "nat \<Rightarrow> nat \<times> string option" where
  "second_fails k = (if k = 1 then (1, Some ''e2'') else (2, None))"

definition two_fail :: "nat \<Rightarrow> nat \<times> string option" where
  "two_fail k = (if k = 1 then (1, Some ''e2'') else if k = 2 then (2, Some ''e3'') else (3, None))"

definition week :: "TimetableEntry list" where
  "week =
     [slot ''A'' ''Monday'' ''09:00'' ''Algorithms'' 45,
      slot ''B'' ''Monday'' ''09:45'' ''Data Structures'' 45,
      slot ''C'' ''Thursday'' ''14:30'' ''Algorithms'' 60,
      slot ''D'' ''Thursday'' ''08:15'' ''Data Structures'' 45]"


section \<open>The verification pipeline of the attendee\<close>

text \<open>
  C3 (token freshness). For a scanned token that carries a location and a non-zero
  timestamp \<open>t\<close>, the scan ends with the expiry error if and only if
  \<open>now - t\<close> is strictly greater than \<open>QR_REFRESH_INTERVAL_MS + 5000\<close>, that is 15000 ms:
  at exactly 15000 ms the token is not expired, at 15001 ms it is.
\<close>

theorem token_freshness:
  assumes "t \<noteq> 0"
  shows "(status (handleQrScan cd now_ms g (Payload (Some l) (Some t)) ui) = ErrorMsg QrExpired
            \<longleftrightarrow> now_ms - t > QR_REFRESH_INTERVAL_MS + 5000) \<and>
         (qr_scan_try cd now_ms g (Payload (Some l) (Some t)) = Inl QrExpired
            \<longleftrightarrow> now_ms - t > 15000) \<and>
         qr_scan_try cd (t + 15000) g (Payload (Some l) (Some t)) \<noteq> Inl QrExpired \<and>
         qr_scan_try cd (t + 15001) g (Payload (Some l) (Some t)) = Inl QrExpired"
  using assms
  by (auto simp: handleQrScan_def qr_scan_try_def QR_REFRESH_INTERVAL_MS_def Let_def
           split: sum.splits)

theorem token_freshness_witness:
  "(1000::int) \<noteq> 0 \<and>
   qr_scan_try (\<lambda>a b. 0) 16000 (Inr origin) (Payload (Some origin) (Some 1000))
     \<noteq> Inl QrExpired \<and>
   qr_scan_try (\<lambda>a b. 0) 16001 (Inr origin) (Payload (Some origin) (Some 1000))
     = Inl QrExpired"
  using token_freshness [of 1000 "\<lambda>a b. 0" 16000 "Inr origin" origin idle_dashboard]
  by simp

text \<open>
  C4 (attendee distance). After a fresh token and a location sample, the scan ends with
  the too-far error exactly when the computed distance is strictly greater than
  \<open>MAX_DISTANCE_METERS = 50\<close>; then the capture dialog is not opened. At a distance of at
  most 50, and so at exactly 50, the session is kept and the capture dialog opens.
\<close>

theorem attendee_distance_boundary:
  assumes "t \<noteq> 0" and "now_ms - t \<le> QR_REFRESH_INTERVAL_MS + 5000"
  shows "((\<exists>x. status (handleQrScan cd now_ms (Inr sl) (Payload (Some l) (Some t)) ui)
                 = ErrorMsg (TooFar x))
            \<longleftrightarrow> cd sl l > MAX_DISTANCE_METERS) \<and>
         (cd sl l > 50 \<longrightarrow>
            qr_scan_try cd now_ms (Inr sl) (Payload (Some l) (Some t)) = Inl (TooFar (cd sl l)) \<and>
            \<not> showFaceCapture (handleQrScan cd now_ms (Inr sl) (Payload (Some l) (Some t))
                 (ui\<lparr>showFaceCapture := False\<rparr>))) \<and>
         (cd sl l \<le> 50 \<longrightarrow>
            (let ui' = handleQrScan cd now_ms (Inr sl) (Payload (Some l) (Some t)) ui
             in showFaceCapture ui' \<and> status ui' = LocationVerified \<and>
                scannedSession ui' = Some \<lparr>location = l, timestamp = t\<rparr>))"
  using assms
  by (auto simp: handleQrScan_def qr_scan_try_def MAX_DISTANCE_METERS_def Let_def)

theorem attendee_distance_boundary_witness:
  "(1000::int) \<noteq> 0 \<and> (2000::int) - 1000 \<le> QR_REFRESH_INTERVAL_MS + 5000 \<and>
   showFaceCapture (handleQrScan (\<lambda>a b. 50) 2000 (Inr origin) (Payload (Some origin) (Some 1000))
      idle_dashboard)"
  using attendee_distance_boundary [of 1000 2000 "\<lambda>a b. 50" origin origin idle_dashboard]
  by (simp add: QR_REFRESH_INTERVAL_MS_def Let_def)



subsection \<open>Writes of a run\<close>

lemma mark_attendance_cases:
  "mark_attendance user tt now today ad db = (r, db') \<Longrightarrow>
     (\<exists>subj. r = Inr (Marked subj) \<and> one_more db db') \<or> (\<exists>e. r = Inl e \<and> db' = db)"
  by (auto simp: mark_attendance_def addAttendanceRecord_def one_more_def
           split: option.splits sum.splits)

lemma verification_try_cases:
  "verification_try user tt vf now today ad retried db = (r, db') \<Longrightarrow>
     (\<exists>subj. r = Inr (Marked subj) \<and> one_more db db') \<or>
     (\<exists>c. r = Inr (RetryOffered c) \<and> db' = db) \<or> (\<exists>e. r = Inl e \<and> db' = db)"
  unfolding verification_try_def
  by (auto split: sum.splits if_splits dest: mark_attendance_cases)

lemma handleVerification_cases:
  assumes "handleVerification user tt vf now today ad (ui, db) = (ui', db')"
  shows "(attendance_marked ui' \<and> \<not> showFaceCapture ui' \<and> one_more db db') \<or>
         (\<not> attendance_marked ui' \<and> db' = db)"
proof (cases "scannedSession ui")
  case None
  with assms show ?thesis
    by (auto simp: handleVerification_def attendance_marked_def)
next
  case (Some sd)
  obtain r d where vt: "verification_try user tt vf now today ad (retryAttempted ui) db = (r, d)"
    by (cases "verification_try user tt vf now today ad (retryAttempted ui) db") auto
  from verification_try_cases [OF vt]
  consider (marked) subj where "r = Inr (Marked subj)" "one_more db d"
    | (retry) c where "r = Inr (RetryOffered c)" "d = db"
    | (err) e where "r = Inl e" "d = db"
    by blast
  then show ?thesis
  proof cases
    case marked
    with Some assms vt show ?thesis
      by (auto simp: handleVerification_def attendance_marked_def)
  next
    case retry
    with Some assms vt show ?thesis
      by (auto simp: handleVerification_def attendance_marked_def)
  next
    case err
    with Some assms vt show ?thesis
      by (cases "is_api_key_error e") (auto simp: handleVerification_def attendance_marked_def)
  qed
qed

lemma captures_closed: "\<not> showFaceCapture (fst s) \<Longrightarrow> captures user tt cs s = s"
  by (cases cs) auto

lemma captures_writes:
  "captures user tt cs (ui, db) = (ui', db') \<Longrightarrow>
     (ui' = ui \<and> db' = db) \<or>
     (attendance_marked ui' \<and> one_more db db') \<or>
     (\<not> attendance_marked ui' \<and> db' = db)"
proof (induction cs arbitrary: ui db)
  case Nil
  then show ?case by simp
next
  case (Cons c cs)
  show ?case
  proof (cases "showFaceCapture ui")
    case False
    with Cons.prems show ?thesis by simp
  next
    case True
    obtain ui1 db1 where hv:
      "handleVerification user tt (c_verifyFace c) (c_now c) (c_today c) (c_addDoc c) (ui, db)
         = (ui1, db1)"
      by (cases "handleVerification user tt (c_verifyFace c) (c_now c) (c_today c) (c_addDoc c) (ui, db)") auto
    with True Cons.prems have rest: "captures user tt cs (ui1, db1) = (ui', db')" by simp
    from handleVerification_cases [OF hv] show ?thesis
    proof
      assume a: "attendance_marked ui1 \<and> \<not> showFaceCapture ui1 \<and> one_more db db1"
      then have "captures user tt cs (ui1, db1) = (ui1, db1)"
        by (simp add: captures_closed)
      with rest a show ?thesis by simp
    next
      assume a: "\<not> attendance_marked ui1 \<and> db1 = db"
      with Cons.IH [of ui1 db] rest show ?thesis by auto
    qed
  qed
qed

lemma handleQrScan_not_marked:
  "\<not> attendance_marked (handleQrScan cd now_ms g data ui)"
  by (auto simp: handleQrScan_def attendance_marked_def Let_def split: sum.splits)

lemma handleQrScan_failure_closed:
  "qr_scan_try cd now_ms g data = Inl e \<Longrightarrow>
     showFaceCapture (handleQrScan cd now_ms g data ui) = showFaceCapture ui"
  by (simp add: handleQrScan_def)


text \<open>
  C6 (side effects of the pipeline). A run is a scan followed by captures for as long as
  the capture dialog is open. If the run ends with attendance marked, the collection has
  grown by exactly one document; in every other case the collection is unchanged. In
  particular nothing is written when the token is malformed, expired or too far away
  (the capture dialog being closed when the scan starts), when the face is not accepted
  (no match, low confidence, or the attempt that uses up the retry), and when no class
  is in session. An accepted face with a class in session appends the one record of that
  class.
\<close>

theorem pipeline_writes:
  assumes "pipeline cd user tt now_ms g data cs (ui, db) = (ui', db')"
  shows "(attendance_marked ui' \<longrightarrow> one_more db db') \<and>
         (\<not> attendance_marked ui' \<longrightarrow> db' = db) \<and>
         (\<not> showFaceCapture ui \<longrightarrow>
            data = NotJson \<or> data = Payload None ts \<or> data = Payload loc None \<or>
            qr_scan_try cd now_ms g data = Inl QrExpired \<or>
            (\<exists>x. qr_scan_try cd now_ms g data = Inl (TooFar x)) \<longrightarrow> db' = db) \<and>
         (\<not> (m \<and> c \<ge> CONFIDENCE_THRESHOLD) \<longrightarrow>
            snd (handleVerification user tt (Inr \<lparr>match = m, confidence = c\<rparr>) now today ad
                   (ui, db)) = db) \<and>
         (find_current_class tt now = None \<longrightarrow>
            snd (handleVerification user tt vf now today ad (ui, db)) = db) \<and>
         (scannedSession ui = Some sd \<and> m \<and> c \<ge> CONFIDENCE_THRESHOLD \<and>
          find_current_class tt now = Some cls \<and> db = Some docs \<longrightarrow>
            snd (handleVerification user tt (Inr \<lparr>match = m, confidence = c\<rparr>) now today
                   (Inr new_id) (ui, db))
              = Some (docs @ [(new_id, \<lparr>studentId = uid user, studentName = student_name user,
                                         rec_subject = subject cls, date = today,
                                         rec_status = Present\<rparr>)]))"
proof -
  from assms have c: "captures user tt cs (handleQrScan cd now_ms g data ui, db) = (ui', db')"
    by (simp add: pipeline_def)
  from captures_writes [OF c] handleQrScan_not_marked [of cd now_ms g data ui]
  have main: "(attendance_marked ui' \<longrightarrow> one_more db db') \<and> (\<not> attendance_marked ui' \<longrightarrow> db' = db)"
    by auto
  have scan: "db' = db" if closed: "\<not> showFaceCapture ui"
    and bad: "data = NotJson \<or> data = Payload None ts \<or> data = Payload loc None \<or>
            qr_scan_try cd now_ms g data = Inl QrExpired \<or>
            (\<exists>x. qr_scan_try cd now_ms g data = Inl (TooFar x))"
  proof -
    from bad obtain e where "qr_scan_try cd now_ms g data = Inl e"
      by (cases loc) (auto simp: qr_scan_try_def)
    with closed have "\<not> showFaceCapture (handleQrScan cd now_ms g data ui)"
      by (simp add: handleQrScan_failure_closed)
    with c show ?thesis by (simp add: captures_closed)
  qed
  have rejected: "snd (handleVerification user tt (Inr \<lparr>match = m, confidence = c\<rparr>) now today ad
                   (ui, db)) = db" if "\<not> (m \<and> c \<ge> CONFIDENCE_THRESHOLD)"
    using that
    by (cases "scannedSession ui")
       (auto simp: handleVerification_def verification_try_def is_api_key_error_def)
  have no_class: "snd (handleVerification user tt vf now today ad (ui, db)) = db"
    if "find_current_class tt now = None"
    using that
    by (cases "scannedSession ui"; cases vf)
       (auto simp: handleVerification_def verification_try_def mark_attendance_def
                   is_api_key_error_def Let_def)
  have accepted: "snd (handleVerification user tt (Inr \<lparr>match = m, confidence = c\<rparr>) now today
                   (Inr new_id) (ui, db))
              = Some (docs @ [(new_id, \<lparr>studentId = uid user, studentName = student_name user,
                                         rec_subject = subject cls, date = today,
                                         rec_status = Present\<rparr>)])"
    if "scannedSession ui = Some sd \<and> m \<and> c \<ge> CONFIDENCE_THRESHOLD \<and>
          find_current_class tt now = Some cls \<and> db = Some docs"
    using that
    by (simp add: handleVerification_def verification_try_def mark_attendance_def
                  addAttendanceRecord_def)
  from main scan rejected no_class accepted show ?thesis by blast
qed

theorem pipeline_writes_witness:
  "pipeline (\<lambda>a b. 10) asha monday_classes 2000 (Inr origin) (Payload (Some origin) (Some 1000))
     [face True (8 / 10) 9 10, face True (95 / 100) 9 11] (idle_dashboard, Some [])
   = (idle_dashboard\<lparr>showScanner := False,
         scannedSession := Some \<lparr>location = origin, timestamp = 1000\<rparr>,
         status := AttendanceMarked ''Algorithms''\<rparr>,
      Some [(''d1'', \<lparr>studentId = ''u1'', studentName = ''Asha'', rec_subject = ''Algorithms'',
                      date = ''2024-01-01'', rec_status = Present\<rparr>)]) \<and>
   one_more (Some [])
     (Some [(''d1'', \<lparr>studentId = ''u1'', studentName = ''Asha'', rec_subject = ''Algorithms'',
                      date = ''2024-01-01'', rec_status = Present\<rparr>)])"
proof -
  have run:
    "pipeline (\<lambda>a b. 10) asha monday_classes 2000 (Inr origin) (Payload (Some origin) (Some 1000))
       [face True (8 / 10) 9 10, face True (95 / 100) 9 11] (idle_dashboard, Some [])
     = (idle_dashboard\<lparr>showScanner := False,
           scannedSession := Some \<lparr>location = origin, timestamp = 1000\<rparr>,
           status := AttendanceMarked ''Algorithms''\<rparr>,
        Some [(''d1'', \<lparr>studentId = ''u1'', studentName = ''Asha'', rec_subject = ''Algorithms'',
                        date = ''2024-01-01'', rec_status = Present\<rparr>)])"
    by (simp add: pipeline_def handleQrScan_def qr_scan_try_def handleVerification_def
          verification_try_def mark_attendance_def addAttendanceRecord_def
          find_current_class_def in_session_def date_ms_def is_digit_def digit_val_def
          duration_or_default_def monday_classes_def slot_def face_def at_clock_def asha_def
          idle_dashboard_def DAYS_OF_WEEK_def DEFAULT_CLASS_DURATION_MINS_def
          QR_REFRESH_INTERVAL_MS_def MAX_DISTANCE_METERS_def CONFIDENCE_THRESHOLD_def
          RETRY_CONFIDENCE_THRESHOLD_def is_api_key_error_def Let_def)
  from pipeline_writes [OF run] run show ?thesis
    by (simp add: attendance_marked_def idle_dashboard_def)
qed

section \<open>Schedule status\<close>

lemma digit_not_colon: "is_digit c \<Longrightarrow> c \<noteq> CHR '':''"
  by (auto simp: is_digit_def)

lemma valid_time_shape:
  assumes "valid_time t"
  obtains a b d e where "t = [a, b, CHR '':'', d, e]"
    "is_digit a" "is_digit b" "is_digit d" "is_digit e"
    "10 * digit_val a + digit_val b < 24" "10 * digit_val d + digit_val e < 60"
proof -
  from assms obtain a b c d e where t: "t = [a, b, c, d, e]"
    by (auto simp: valid_time_def split: list.splits)
  with assms have "is_digit a" "is_digit b" "c = CHR '':''" "is_digit d" "is_digit e"
    "10 * digit_val a + digit_val b < 24" "10 * digit_val d + digit_val e < 60"
    by (simp_all add: valid_time_def)
  with t that show ?thesis by blast
qed

lemma timeToMinutes_shape:
  assumes "is_digit a" "is_digit b" "is_digit d" "is_digit e"
  shows "timeToMinutes [a, b, CHR '':'', d, e]
           = Some ((10 * digit_val a + digit_val b) * 60 + (10 * digit_val d + digit_val e))"
  using assms digit_not_colon [of a] digit_not_colon [of b] digit_not_colon [of d]
    digit_not_colon [of e]
  by (simp add: timeToMinutes_def Number_js_def)

lemma localeCompare_shape:
  assumes "is_digit a" "is_digit b" "is_digit d" "is_digit e"
    and "is_digit a'" "is_digit b'" "is_digit d'" "is_digit e'"
    and "10 * digit_val d + digit_val e < 60" and "10 * digit_val d' + digit_val e' < 60"
  shows "localeCompare [a, b, CHR '':'', d, e] [a', b', CHR '':'', d', e'] \<le> 0 \<longleftrightarrow>
           (10 * digit_val a + digit_val b) * 60 + (10 * digit_val d + digit_val e)
             \<le> (10 * digit_val a' + digit_val b') * 60 + (10 * digit_val d' + digit_val e')"
proof -
  define x where "x = (of_char a :: nat)"
  define y where "y = (of_char b :: nat)"
  define z where "z = (of_char d :: nat)"
  define w where "w = (of_char e :: nat)"
  define x' where "x' = (of_char a' :: nat)"
  define y' where "y' = (of_char b' :: nat)"
  define z' where "z' = (of_char d' :: nat)"
  define w' where "w' = (of_char e' :: nat)"
  note defs = x_def y_def z_def w_def x'_def y'_def z'_def w'_def
  from assms have b: "48 \<le> x" "x \<le> 57" "48 \<le> y" "y \<le> 57" "48 \<le> z" "z \<le> 57" "48 \<le> w" "w \<le> 57"
    "48 \<le> x'" "x' \<le> 57" "48 \<le> y'" "y' \<le> 57" "48 \<le> z'" "z' \<le> 57" "48 \<le> w'" "w' \<le> 57"
    by (simp_all add: is_digit_def defs)
  have lc: "localeCompare [a, b, CHR '':'', d, e] [a', b', CHR '':'', d', e'] \<le> 0 \<longleftrightarrow>
        x < x' \<or> (x = x' \<and> (y < y' \<or> (y = y' \<and> (z < z' \<or> (z = z' \<and> w \<le> w')))))"
    by (auto simp: defs)
  have num: "(10 * digit_val a + digit_val b) * 60 + (10 * digit_val d + digit_val e)
             \<le> (10 * digit_val a' + digit_val b') * 60 + (10 * digit_val d' + digit_val e')
        \<longleftrightarrow> 600 * x + 60 * y + 10 * z + w \<le> 600 * x' + 60 * y' + 10 * z' + w'"
    using b by (simp add: digit_val_def defs [symmetric]) arith
  from assms(9,10) b have m: "10 * z + w < 588" "10 * z' + w' < 588"
    by (simp_all add: digit_val_def defs [symmetric])
  from b m have "x < x' \<or> (x = x' \<and> (y < y' \<or> (y = y' \<and> (z < z' \<or> (z = z' \<and> w \<le> w')))))
      \<longleftrightarrow> 600 * x + 60 * y + 10 * z + w \<le> 600 * x' + 60 * y' + 10 * z' + w'"
    by arith
  with lc num show ?thesis by simp
qed


lemma start_minute_valid:
  "valid_time (time e) \<Longrightarrow> timeToMinutes (time e) = Some (start_minute e)"
  by (erule valid_time_shape) (simp add: start_minute_def timeToMinutes_shape)

lemma localeCompare_valid:
  assumes "valid_time (time x)" and "valid_time (time y)"
  shows "localeCompare (time x) (time y) \<le> 0 \<longleftrightarrow> start_minute x \<le> start_minute y"
proof -
  from assms(1) obtain a b d e where x: "time x = [a, b, CHR '':'', d, e]"
    "is_digit a" "is_digit b" "is_digit d" "is_digit e" "10 * digit_val d + digit_val e < 60"
    by (rule valid_time_shape)
  from assms(2) obtain a' b' d' e' where y: "time y = [a', b', CHR '':'', d', e']"
    "is_digit a'" "is_digit b'" "is_digit d'" "is_digit e'" "10 * digit_val d' + digit_val e' < 60"
    by (rule valid_time_shape)
  from x y show ?thesis
    by (simp only: localeCompare_shape start_minute_def timeToMinutes_shape option.case)
qed

lemma insert_by_key:
  "\<forall>y \<in> set ys. (cmp x y \<le> 0) = (k x \<le> k y) \<Longrightarrow> insert_by cmp x ys = insort_key k x ys"
  by (induction ys) auto

lemma sort_by_key:
  "\<forall>x \<in> set xs. \<forall>y \<in> set xs. (cmp x y \<le> 0) = (k x \<le> (k y :: int)) \<Longrightarrow>
     sort_by cmp xs = sort_key k xs"
proof (induction xs)
  case Nil
  then show ?case by (simp add: sort_by_def)
next
  case (Cons x xs)
  then have ih: "sort_by cmp xs = sort_key k xs" by simp
  have "sort_by cmp (x # xs) = insert_by cmp x (sort_by cmp xs)"
    by (simp add: sort_by_def)
  also have "\<dots> = insert_by cmp x (sort_key k xs)" by (simp only: ih)
  also from Cons.prems have "\<dots> = insort_key k x (sort_key k xs)"
    by (intro insert_by_key) simp
  finally show ?case by simp
qed

lemma sorted_head_least:
  assumes "sort_key k xs = e # rest"
  shows "e \<in> set xs \<and> (\<forall>e' \<in> set xs. k e \<le> (k e' :: int))"
proof -
  have s: "sorted (map k (sort_key k xs))" by (rule sorted_sort_key)
  have m: "set (sort_key k xs) = set xs" by simp
  from s assms have "\<forall>e' \<in> set (e # rest). k e \<le> k e'" by auto
  with m assms show ?thesis by (metis list.set_intros(1))
qed

lemma snd_today_loop:
  "snd (today_loop t xs (cur, up)) = up @ filter (upcoming t) xs"
  by (induction t xs "(cur, up)" arbitrary: cur up rule: today_loop.induct)
     (auto simp: upcoming_def Let_def)


lemma sort_by_empty: "sort_by cmp [] = []"
  by (simp add: sort_by_def)

lemma sort_by_times:
  assumes "\<forall>e \<in> set es. valid_time (time e)"
  shows "sort_by (\<lambda>a b. localeCompare (time a) (time b)) es = sort_key start_minute es"
  using assms by (intro sort_by_key) (simp add: localeCompare_valid)

lemma sort_by_starts:
  assumes "\<forall>e \<in> set es. valid_time (time e)"
  shows "sort_by compare_start (map (\<lambda>e. (e, timeToMinutes (time e))) es)
           = sort_key (\<lambda>p. start_minute (fst p)) (map (\<lambda>e. (e, timeToMinutes (time e))) es)"
proof (rule sort_by_key, intro ballI)
  fix p q
  assume "p \<in> set (map (\<lambda>e. (e, timeToMinutes (time e))) es)"
    and "q \<in> set (map (\<lambda>e. (e, timeToMinutes (time e))) es)"
  with assms have "snd p = Some (start_minute (fst p))" "snd q = Some (start_minute (fst q))"
    by (auto simp: start_minute_valid)
  then show "(compare_start p q \<le> 0) = (start_minute (fst p) \<le> start_minute (fst q))"
    by (simp add: compare_start_def)
qed

lemma next_day_loop_skip:
  "\<forall>j \<in> set pre. on_day tt (DAYS_OF_WEEK ! ((d + j) mod 7)) = [] \<Longrightarrow>
     next_day_loop tt d (pre @ rest) = next_day_loop tt d rest"
  by (induction pre) (simp_all add: on_day_def sort_by_empty)

lemma next_day_loop_hit:
  assumes "well_formed tt" and "on_day tt (DAYS_OF_WEEK ! ((d + i) mod 7)) \<noteq> []"
  shows "\<exists>e. earliest (on_day tt (DAYS_OF_WEEK ! ((d + i) mod 7))) e \<and>
           next_day_loop tt d (i # rest) = Some (entry_id e)"
proof -
  let ?es = "on_day tt (DAYS_OF_WEEK ! ((d + i) mod 7))"
  from assms(1) have v: "\<forall>e \<in> set ?es. valid_time (time e)"
    by (auto simp: well_formed_def on_day_def)
  then have srt: "sort_by (\<lambda>a b. localeCompare (time a) (time b)) ?es = sort_key start_minute ?es"
    by (rule sort_by_times)
  from assms(2) have "sort_key start_minute ?es \<noteq> []"
    by (metis length_0_conv length_sort)
  then obtain e more where hd: "sort_key start_minute ?es = e # more"
    by (cases "sort_key start_minute ?es") auto
  from sorted_head_least [OF hd] have "earliest ?es e" by (simp add: earliest_def)
  moreover from srt hd have "next_day_loop tt d (i # rest) = Some (entry_id e)"
    by (simp add: on_day_def)
  ultimately show ?thesis by blast
qed

lemma nextClassId_unfold:
  "nextClassId (getScheduleStatus tt now)
     = (let up = snd (today_loop (minute_of_day now)
                   (sort_by compare_start
                      (map (\<lambda>entry. (entry, timeToMinutes (time entry)))
                         (on_day tt (DAYS_OF_WEEK ! getDay now)))) (None, []));
            next = (case up of [] \<Rightarrow> None | e # _ \<Rightarrow> Some (entry_id (fst e)))
        in if falsy_id next
           then (case next_day_loop tt (getDay now) [1..<8] of None \<Rightarrow> next | Some i \<Rightarrow> Some i)
           else next)"
  by (simp add: getScheduleStatus_def Let_def minute_of_day_def on_day_def case_prod_beta)

lemma upcoming_today:
  assumes "well_formed tt"
  shows "snd (today_loop (minute_of_day now)
                   (sort_by compare_start
                      (map (\<lambda>entry. (entry, timeToMinutes (time entry)))
                         (on_day tt (DAYS_OF_WEEK ! getDay now)))) (None, []))
           = sort_key (\<lambda>p. start_minute (fst p))
               (map (\<lambda>e. (e, timeToMinutes (time e))) (later_today tt now))"
proof -
  let ?es = "on_day tt (DAYS_OF_WEEK ! getDay now)"
  let ?f = "\<lambda>e. (e, timeToMinutes (time e))"
  from assms have v: "\<forall>e \<in> set ?es. valid_time (time e)"
    by (auto simp: well_formed_def on_day_def)
  have "filter (upcoming (minute_of_day now)) (map ?f ?es) = map ?f (later_today tt now)"
    unfolding later_today_def filter_map
  proof (rule arg_cong [where f = "map ?f"], rule filter_cong [OF refl])
    fix e assume "e \<in> set ?es"
    with v have "timeToMinutes (time e) = Some (start_minute e)"
      by (simp add: start_minute_valid)
    then show "(upcoming (minute_of_day now) \<circ> ?f) e = (minute_of_day now < start_minute e)"
      by (simp add: upcoming_def)
  qed
  with v show ?thesis
    by (simp add: snd_today_loop sort_by_starts filter_sort)
qed


lemma next_today:
  assumes wf: "well_formed tt" and some: "later_today tt now \<noteq> []"
  shows "\<exists>e. earliest (later_today tt now) e \<and>
           nextClassId (getScheduleStatus tt now) = Some (entry_id e)"
proof -
  let ?f = "\<lambda>e. (e, timeToMinutes (time e))"
  let ?up = "sort_key (\<lambda>p. start_minute (fst p)) (map ?f (later_today tt now))"
  from some have "?up \<noteq> []" by (metis length_0_conv length_sort length_map)
  then obtain p more where hd: "?up = p # more" by (cases ?up) auto
  from sorted_head_least [OF hd]
  have p: "p \<in> set (map ?f (later_today tt now))"
    and least: "\<forall>q \<in> set (map ?f (later_today tt now)). start_minute (fst p) \<le> start_minute (fst q)"
    by auto
  from p have mem: "fst p \<in> set (later_today tt now)" by auto
  from least have "\<forall>e' \<in> set (later_today tt now). start_minute (fst p) \<le> start_minute e'"
    by auto
  with mem have e: "earliest (later_today tt now) (fst p)" by (simp add: earliest_def)
  from mem wf have "entry_id (fst p) \<noteq> []"
    by (auto simp: later_today_def on_day_def well_formed_def)
  with hd have "nextClassId (getScheduleStatus tt now) = Some (entry_id (fst p))"
    by (simp add: nextClassId_unfold upcoming_today [OF wf] falsy_id_def)
  with e show ?thesis by blast
qed

lemma next_falls_through:
  assumes wf: "well_formed tt" and none: "later_today tt now = []"
  shows "nextClassId (getScheduleStatus tt now) = next_day_loop tt (getDay now) [1..<8]"
  using none
  by (simp add: nextClassId_unfold upcoming_today [OF wf] falsy_id_def split: option.splits)

lemma split_days:
  assumes "1 \<le> i" and "i \<le> (7::nat)"
  shows "[1..<8] = [1..<i] @ i # [Suc i..<8]"
proof -
  from assms have "[1..<8] = [1..<i] @ [i..<8]"
    by (metis le_add_diff_inverse less_imp_le_nat upt_add_eq_append le_imp_less_Suc
          Suc_numeral semiring_norm(2) semiring_norm(8))
  moreover from assms have "[i..<8] = i # [Suc i..<8]"
    by (simp add: upt_conv_Cons)
  ultimately show ?thesis by simp
qed

text \<open>
  C7 (next class). For a well-formed timetable: if some entry of today starts strictly
  after now, \<open>nextClassId\<close> is the id of an earliest-starting one among them; otherwise it
  is the id of an earliest-starting entry of the first day that has entries, looking 1 to
  7 days ahead, the seventh being today's weekday again; when no such day exists it is
  null. On the empty timetable both ids are null.
\<close>

theorem next_class_selection:
  assumes "well_formed tt" and "getDay now < 7"
  shows "(later_today tt now \<noteq> [] \<longrightarrow>
            (\<exists>e. earliest (later_today tt now) e \<and>
                 nextClassId (getScheduleStatus tt now) = Some (entry_id e))) \<and>
         (later_today tt now = [] \<longrightarrow>
            (\<forall>i \<in> {1..7}.
               (\<forall>j \<in> {1..<i}. on_day tt (day_after now j) = []) \<and>
               on_day tt (day_after now i) \<noteq> [] \<longrightarrow>
               (\<exists>e. earliest (on_day tt (day_after now i)) e \<and>
                    nextClassId (getScheduleStatus tt now) = Some (entry_id e)))) \<and>
         (later_today tt now = [] \<and> (\<forall>i \<in> {1..7}. on_day tt (day_after now i) = []) \<longrightarrow>
            nextClassId (getScheduleStatus tt now) = None) \<and>
         getScheduleStatus [] now = \<lparr>currentClassId = None, nextClassId = None\<rparr>"
proof (intro conjI impI ballI)
  assume "later_today tt now \<noteq> []"
  with assms(1) show "\<exists>e. earliest (later_today tt now) e \<and>
                 nextClassId (getScheduleStatus tt now) = Some (entry_id e)"
    by (rule next_today)
next
  fix i
  assume none: "later_today tt now = []" and i: "i \<in> {1..7}"
    and days: "(\<forall>j \<in> {1..<i}. on_day tt (day_after now j) = []) \<and>
               on_day tt (day_after now i) \<noteq> []"
  from i have sp: "[1..<8] = [1..<i] @ i # [Suc i..<8]" by (intro split_days) auto
  from days have "\<forall>j \<in> set [1..<i]. on_day tt (DAYS_OF_WEEK ! ((getDay now + j) mod 7)) = []"
    by (simp add: day_after_def)
  then have "next_day_loop tt (getDay now) [1..<8]
      = next_day_loop tt (getDay now) (i # [Suc i..<8])"
    by (simp only: sp next_day_loop_skip)
  moreover from days assms(1)
  have "\<exists>e. earliest (on_day tt (DAYS_OF_WEEK ! ((getDay now + i) mod 7))) e \<and>
           next_day_loop tt (getDay now) (i # [Suc i..<8]) = Some (entry_id e)"
    by (intro next_day_loop_hit) (simp_all add: day_after_def)
  ultimately show "\<exists>e. earliest (on_day tt (day_after now i)) e \<and>
                    nextClassId (getScheduleStatus tt now) = Some (entry_id e)"
    using next_falls_through [OF assms(1) none] by (simp add: day_after_def)
next
  assume a: "later_today tt now = [] \<and> (\<forall>i \<in> {1..7}. on_day tt (day_after now i) = [])"
  then have "\<forall>j \<in> set [1..<8]. on_day tt (DAYS_OF_WEEK ! ((getDay now + j) mod 7)) = []"
    by (simp add: day_after_def)
  from next_day_loop_skip [OF this, of "[]"]
  have "next_day_loop tt (getDay now) [1..<8] = None" by simp
  with a next_falls_through [OF assms(1)] show "nextClassId (getScheduleStatus tt now) = None"
    by simp
next
  have "\<forall>j \<in> set [1..<8]. on_day [] (DAYS_OF_WEEK ! ((getDay now + j) mod 7)) = []"
    by (simp add: on_day_def)
  from next_day_loop_skip [OF this, of "[]"]
  have "next_day_loop [] (getDay now) [1..<8] = None" by simp
  then show "getScheduleStatus [] now = \<lparr>currentClassId = None, nextClassId = None\<rparr>"
    by (simp add: getScheduleStatus_def sort_by_empty falsy_id_def)
qed

theorem next_class_selection_witness:
  "well_formed week \<and> getDay (at_clock 1 9 30) < 7 \<and> getDay (at_clock 1 11 0) < 7 \<and>
   later_today week (at_clock 1 9 30) \<noteq> [] \<and>
   nextClassId (getScheduleStatus week (at_clock 1 9 30)) = Some ''B'' \<and>
   later_today week (at_clock 1 11 0) = [] \<and>
   nextClassId (getScheduleStatus week (at_clock 1 11 0)) = Some ''D''"
proof -
  have wf: "well_formed week" by code_simp
  have d: "getDay (at_clock 1 9 30) < 7" "getDay (at_clock 1 11 0) < 7"
    by (simp_all add: at_clock_def)
  have l1: "later_today week (at_clock 1 9 30) = [slot ''B'' ''Monday'' ''09:45'' ''Data Structures'' 45]"
    by code_simp
  have l2: "later_today week (at_clock 1 11 0) = []" by code_simp
  have e1: "earliest [slot ''B'' ''Monday'' ''09:45'' ''Data Structures'' 45] e \<Longrightarrow>
      entry_id e = ''B''" for e
    by (auto simp: earliest_def slot_def)
  have days: "(\<forall>j \<in> {1..<3}. on_day week (day_after (at_clock 1 11 0) j) = []) \<and>
      on_day week (day_after (at_clock 1 11 0) 3) \<noteq> []"
    by code_simp
  have thu: "on_day week (day_after (at_clock 1 11 0) 3)
      = [slot ''C'' ''Thursday'' ''14:30'' ''Algorithms'' 60,
         slot ''D'' ''Thursday'' ''08:15'' ''Data Structures'' 45]"
    by code_simp
  have sm: "start_minute (slot ''C'' ''Thursday'' ''14:30'' ''Algorithms'' 60) = 870"
    "start_minute (slot ''D'' ''Thursday'' ''08:15'' ''Data Structures'' 45) = 495"
    by code_simp+
  have e2: "earliest [slot ''C'' ''Thursday'' ''14:30'' ''Algorithms'' 60,
         slot ''D'' ''Thursday'' ''08:15'' ''Data Structures'' 45] e \<Longrightarrow> entry_id e = ''D''" for e
    by (auto simp: earliest_def sm) (simp add: slot_def)
  from next_class_selection [OF wf d(1)] l1 e1
  have n1: "nextClassId (getScheduleStatus week (at_clock 1 9 30)) = Some ''B''"
    by auto
  from next_class_selection [OF wf d(2)] l2 days
  have "\<exists>e. earliest (on_day week (day_after (at_clock 1 11 0) 3)) e \<and>
          nextClassId (getScheduleStatus week (at_clock 1 11 0)) = Some (entry_id e)"
    by auto
  with thu e2 have n2: "nextClassId (getScheduleStatus week (at_clock 1 11 0)) = Some ''D''"
    by auto
  from wf d l1 l2 n1 n2 show ?thesis by simp
qed


subsection \<open>The class in session\<close>

text \<open>For a time of the form \<^verbatim>\<open>HH:MM\<close> the test of the accept branch, in minutes: the
  end of the interval is included.\<close>

lemma date_ms_valid:
  "valid_time (time e) \<Longrightarrow> date_ms (time e) = Some (start_minute e * 60000)"
  by (erule valid_time_shape) (simp add: date_ms_def start_minute_def timeToMinutes_shape)

lemma in_session_minutes:
  assumes "valid_time (time e)"
  shows "in_session now e \<longleftrightarrow>
           day e = DAYS_OF_WEEK ! getDay now \<and> start_minute e \<le> minute_of_day now \<and>
           minute_of_day now \<le> start_minute e + duration_or_default e"
  using assms by (auto simp: in_session_def date_ms_valid minute_of_day_def Let_def)

text \<open>
  C2 (class resolution on accept). On Monday at 09:45, with a class from 09:00 for 45
  minutes followed by a class from 09:45, the lookup of the accept branch returns the
  class that has ended, because its test is \<open>now \<le> end\<close>, while \<open>getScheduleStatus\<close>,
  whose test is \<open>now < end\<close>, gives the class that has begun; an accepted face is then
  recorded for the class that has ended. With the first class alone the accept branch
  still finds it, and \<open>getScheduleStatus\<close> finds none.
\<close>

theorem class_resolution_at_end_minute:
  "find_current_class monday_classes (at_clock 1 9 45)
     = Some (slot ''A'' ''Monday'' ''09:00'' ''Algorithms'' 45) \<and>
   currentClassId (getScheduleStatus monday_classes (at_clock 1 9 45)) = Some ''B'' \<and>
   find_current_class [slot ''A'' ''Monday'' ''09:00'' ''Algorithms'' 45] (at_clock 1 9 45)
     = Some (slot ''A'' ''Monday'' ''09:00'' ''Algorithms'' 45) \<and>
   currentClassId (getScheduleStatus [slot ''A'' ''Monday'' ''09:00'' ''Algorithms'' 45]
     (at_clock 1 9 45)) = None \<and>
   snd (handleVerification asha monday_classes (Inr \<lparr>match = True, confidence = 95 / 100\<rparr>)
          (at_clock 1 9 45) ''2024-01-01'' (Inr ''d1'') (scanned_dashboard, Some []))
     = Some [(''d1'', \<lparr>studentId = ''u1'', studentName = ''Asha'', rec_subject = ''Algorithms'',
                      date = ''2024-01-01'', rec_status = Present\<rparr>)]"
proof -
  have a: "find_current_class monday_classes (at_clock 1 9 45)
     = Some (slot ''A'' ''Monday'' ''09:00'' ''Algorithms'' 45)"
    by code_simp
  have b: "currentClassId (getScheduleStatus monday_classes (at_clock 1 9 45)) = Some ''B''"
    by code_simp
  have c: "find_current_class [slot ''A'' ''Monday'' ''09:00'' ''Algorithms'' 45] (at_clock 1 9 45)
     = Some (slot ''A'' ''Monday'' ''09:00'' ''Algorithms'' 45)"
    by code_simp
  have d: "currentClassId (getScheduleStatus [slot ''A'' ''Monday'' ''09:00'' ''Algorithms'' 45]
     (at_clock 1 9 45)) = None"
    by code_simp
  have e: "snd (handleVerification asha monday_classes (Inr \<lparr>match = True, confidence = 95 / 100\<rparr>)
          (at_clock 1 9 45) ''2024-01-01'' (Inr ''d1'') (scanned_dashboard, Some []))
     = Some [(''d1'', \<lparr>studentId = ''u1'', studentName = ''Asha'', rec_subject = ''Algorithms'',
                      date = ''2024-01-01'', rec_status = Present\<rparr>)]"
    by (simp add: handleVerification_def verification_try_def mark_attendance_def a
          addAttendanceRecord_def scanned_dashboard_def asha_def slot_def
          CONFIDENCE_THRESHOLD_def del: One_nat_def)
  from a b c d e show ?thesis by blast
qed


section \<open>The geofence of the presenter\<close>

text \<open>
  C5 (presenter drift). A session started at a location has that location as its anchor.
  While the session is active, a refresh with a sampled location compares the distance
  from the sample to the anchor with \<open>MAX_FACULTY_MOVEMENT_METERS = 100\<close>: strictly
  above, the session is stopped and the drift error is set; at most 100, and so at exactly
  100, the session carries the sample and a new timestamp, and the anchor is unchanged.
  After a refresh to another location, the next refresh is still decided by the distance
  to the anchor.
\<close>

theorem presenter_drift:
  assumes "activeSession fp = Some s" and "initialSessionLocation fp = Some anchor"
  shows "(cd newLocation anchor > MAX_FACULTY_MOVEMENT_METERS \<longrightarrow>
            locationRefresh cd now_ms (Inr newLocation) fp
              = fp\<lparr>activeSession := None, initialSessionLocation := None,
                   showFullScreenQR := False, fp_error := Some MovedTooFar\<rparr>) \<and>
         (cd newLocation anchor \<le> MAX_FACULTY_MOVEMENT_METERS \<longrightarrow>
            locationRefresh cd now_ms (Inr newLocation) fp
              = fp\<lparr>activeSession := Some \<lparr>location = newLocation, timestamp = now_ms\<rparr>\<rparr>) \<and>
         (cd newLocation anchor = 100 \<longrightarrow>
            activeSession (locationRefresh cd now_ms (Inr newLocation) fp)
              = Some \<lparr>location = newLocation, timestamp = now_ms\<rparr> \<and>
            initialSessionLocation (locationRefresh cd now_ms (Inr newLocation) fp)
              = Some anchor) \<and>
         (cd newLocation anchor \<le> 100 \<longrightarrow>
            (activeSession (locationRefresh cd later (Inr nextLocation)
                 (locationRefresh cd now_ms (Inr newLocation) fp)) = None
               \<longleftrightarrow> cd nextLocation anchor > 100)) \<and>
         initialSessionLocation (startSession now_ms (Inr anchor) fp0) = Some anchor \<and>
         activeSession (startSession now_ms (Inr anchor) fp0)
           = Some \<lparr>location = anchor, timestamp = now_ms\<rparr>"
  using assms
  by (auto simp: locationRefresh_def stopSession_def startSession_def
                 MAX_FACULTY_MOVEMENT_METERS_def Let_def)

theorem presenter_drift_witness:
  "activeSession running_portal = Some \<lparr>location = origin, timestamp = 0\<rparr> \<and>
   initialSessionLocation running_portal = Some origin \<and>
   locationRefresh (\<lambda>a b. if a = b then 0 else 5500) 11000 (Inr elsewhere) running_portal
     = running_portal\<lparr>activeSession := None, initialSessionLocation := None,
         showFullScreenQR := False, fp_error := Some MovedTooFar\<rparr>"
  using presenter_drift [of running_portal "\<lparr>location = origin, timestamp = 0\<rparr>" origin
          "\<lambda>a b. if a = b then 0 else 5500" elsewhere 11000]
  by (simp add: running_portal_def origin_def elsewhere_def MAX_FACULTY_MOVEMENT_METERS_def)

section \<open>The timetable form\<close>











lemma timeToMinutes_empty: "timeToMinutes [] = None"
  by (simp add: timeToMinutes_def Number_js_def)









text \<open>
  C10 (cap of 7 classes a day). An add on a day that already has 7 or more entries is
  rejected with an error and the timetable is not written: the error is that of the cap,
  unless a required field is missing, which is reported first. An edit is not subject to
  the cap: with the fields filled in, no conflict and the store accepting, it is saved
  whatever the number of entries of the chosen day, so a day can come to hold 8 entries.
\<close>

theorem per_day_cap:
  "(editingEntry tm = None \<and> length (filter (\<lambda>x. day x = f_day tm) tt) \<ge> 7 \<longrightarrow>
      snd (handleSubmit env subjs tt tm) = tt \<and>
      tm_error (fst (handleSubmit env subjs tt tm))
        = Some (if f_time tm = [] \<or> f_subject tm = [] \<or> f_duration tm \<le> 0
                then RequiredFields else TooManyClasses (f_day tm))) \<and>
   (editingEntry tm = Some ed \<and> f_time tm \<noteq> [] \<and> f_subject tm \<noteq> [] \<and> 0 < f_duration tm \<and>
    f_day tm \<noteq> [] \<and> (\<forall>e \<in> set tt. \<not> conflicts_with tm e) \<and> db_ready env \<and>
    write_result env = Inr i \<longrightarrow>
      successMessage (fst (handleSubmit env subjs tt tm)) = Some EntryUpdated \<and>
      tm_error (fst (handleSubmit env subjs tt tm)) = None \<and>
      map day (snd (handleSubmit env subjs tt tm))
        = map (\<lambda>d. if entry_id d = entry_id ed then f_day tm else day d) tt)"
proof (intro conjI impI)
  assume "editingEntry tm = None \<and> length (filter (\<lambda>x. day x = f_day tm) tt) \<ge> 7"
  then show "snd (handleSubmit env subjs tt tm) = tt"
    and "tm_error (fst (handleSubmit env subjs tt tm))
        = Some (if f_time tm = [] \<or> f_subject tm = [] \<or> f_duration tm \<le> 0
                then RequiredFields else TooManyClasses (f_day tm))"
    by (auto simp: handleSubmit_def Let_def)
next
  let ?tm = "tm\<lparr>successMessage := None, tm_error := None\<rparr>"
  have cw: "conflicts_with ?tm = conflicts_with tm"
    by (rule ext) (simp add: conflicts_with_def Let_def split: option.splits)
  assume a: "editingEntry tm = Some ed \<and> f_time tm \<noteq> [] \<and> f_subject tm \<noteq> [] \<and> 0 < f_duration tm \<and>
    f_day tm \<noteq> [] \<and> (\<forall>e \<in> set tt. \<not> conflicts_with tm e) \<and> db_ready env \<and>
    write_result env = Inr i"
  then have none: "find (conflicts_with tm) tt = None"
    by (simp add: find_None_iff)
  let ?ed = "ed\<lparr>day := f_day tm, time := f_time tm, subject := f_subject tm,
                duration := f_duration tm\<rparr>"
  from a obtain tt' where upd: "updateTimetableEntry env tt ?ed = Inr tt'"
    and days: "map day tt' = map (\<lambda>d. if entry_id d = entry_id ed then f_day tm else day d) tt"
    by (auto simp: updateTimetableEntry_def Let_def comp_def)
  from a none cw upd show "successMessage (fst (handleSubmit env subjs tt tm)) = Some EntryUpdated"
    by (auto simp: handleSubmit_def Let_def resetForm_def)
  from a none cw upd show "tm_error (fst (handleSubmit env subjs tt tm)) = None"
    by (auto simp: handleSubmit_def Let_def resetForm_def)
  from a none cw upd days show "map day (snd (handleSubmit env subjs tt tm))
        = map (\<lambda>d. if entry_id d = entry_id ed then f_day tm else day d) tt"
    by (auto simp: handleSubmit_def Let_def)
qed

theorem per_day_cap_witness:
  "length (filter (\<lambda>x. day x = ''Monday'') full_monday) \<ge> 7 \<and>
   snd (handleSubmit (store_ok ''n1'') [''Algorithms''] full_monday
          (blank_form\<lparr>f_time := ''16:00''\<rparr>)) = full_monday \<and>
   tm_error (fst (handleSubmit (store_ok ''n1'') [''Algorithms''] full_monday
          (blank_form\<lparr>f_time := ''16:00''\<rparr>))) = Some (TooManyClasses ''Monday'') \<and>
   successMessage (fst (handleSubmit (store_ok ''n1'') [''Algorithms''] full_monday
          (blank_form\<lparr>f_time := ''16:00'',
             editingEntry := Some (slot ''t1'' ''Tuesday'' ''08:00'' ''Algorithms'' 45)\<rparr>)))
     = Some EntryUpdated \<and>
   length (filter (\<lambda>d. d = ''Monday'')
     (map day (snd (handleSubmit (store_ok ''n1'') [''Algorithms''] full_monday
          (blank_form\<lparr>f_time := ''16:00'',
             editingEntry := Some (slot ''t1'' ''Tuesday'' ''08:00'' ''Algorithms'' 45)\<rparr>))))) = 8"
proof -
  let ?add = "blank_form\<lparr>f_time := ''16:00''\<rparr>"
  let ?t1 = "slot ''t1'' ''Tuesday'' ''08:00'' ''Algorithms'' 45"
  let ?edit = "blank_form\<lparr>f_time := ''16:00'', editingEntry := Some ?t1\<rparr>"
  have times: "timeToMinutes ''16:00'' = Some 960" "timeToMinutes ''08:00'' = Some 480"
    "timeToMinutes ''09:00'' = Some 540" "timeToMinutes ''10:00'' = Some 600"
    "timeToMinutes ''11:00'' = Some 660" "timeToMinutes ''12:00'' = Some 720"
    "timeToMinutes ''13:00'' = Some 780" "timeToMinutes ''14:00'' = Some 840"
    by (simp_all add: timeToMinutes_def Number_js_def is_digit_def digit_val_def)
  have h1: "editingEntry ?add = None \<and> length (filter (\<lambda>x. day x = f_day ?add) full_monday) \<ge> 7"
    by (simp add: full_monday_def slot_def blank_form_def)
  have h2: "editingEntry ?edit = Some ?t1 \<and> f_time ?edit \<noteq> [] \<and> f_subject ?edit \<noteq> [] \<and>
      0 < f_duration ?edit \<and> f_day ?edit \<noteq> [] \<and>
      (\<forall>e \<in> set full_monday. \<not> conflicts_with ?edit e) \<and> db_ready (store_ok ''n1'') \<and>
      write_result (store_ok ''n1'') = Inr ''n1''"
    by (simp add: full_monday_def slot_def blank_form_def store_ok_def conflicts_with_def
          times duration_or_default_def DEFAULT_CLASS_DURATION_MINS_def)
  from per_day_cap [of ?add full_monday "store_ok ''n1''" "[''Algorithms'']"] h1
  have r1: "snd (handleSubmit (store_ok ''n1'') [''Algorithms''] full_monday ?add) = full_monday \<and>
      tm_error (fst (handleSubmit (store_ok ''n1'') [''Algorithms''] full_monday ?add))
        = Some (TooManyClasses ''Monday'')"
    by (simp add: blank_form_def)
  from per_day_cap [of ?edit full_monday "store_ok ''n1''" "[''Algorithms'']" ?t1 "''n1''"] h2
  have r2: "successMessage (fst (handleSubmit (store_ok ''n1'') [''Algorithms''] full_monday ?edit))
        = Some EntryUpdated \<and>
      map day (snd (handleSubmit (store_ok ''n1'') [''Algorithms''] full_monday ?edit))
        = map (\<lambda>d. if entry_id d = entry_id ?t1 then f_day ?edit else day d) full_monday"
    by blast
  from h1 r1 r2 show ?thesis
    by (simp add: full_monday_def slot_def blank_form_def)
qed


section \<open>Bulk deletion\<close>

lemma concat_batch_loop: "concat (batch_loop i xs) = drop i xs"
proof (induction i xs rule: batch_loop.induct)
  case (1 i xs)
  show ?case
  proof (cases "i < length xs")
    case True
    have "take BATCH_SIZE (drop i xs) @ drop (i + BATCH_SIZE) xs = drop i xs"
      by (metis append_take_drop_id drop_drop add.commute)
    with 1 True show ?thesis
      by (subst batch_loop.simps) (simp del: drop_drop)
  next
    case False
    then show ?thesis by (subst batch_loop.simps) simp
  qed
qed

lemma batch_loop_sizes:
  "b \<in> set (batch_loop i xs) \<Longrightarrow> 0 < length b \<and> length b \<le> BATCH_SIZE"
proof (induction i xs rule: batch_loop.induct)
  case (1 i xs)
  show ?case
  proof (cases "i < length xs")
    case True
    from "1.prems" have "b = take BATCH_SIZE (drop i xs) \<or> b \<in> set (batch_loop (i + BATCH_SIZE) xs)"
      by (subst (asm) batch_loop.simps) (simp add: True)
    then show ?thesis
    proof
      assume "b = take BATCH_SIZE (drop i xs)"
      with True show ?thesis by (simp add: BATCH_SIZE_def)
    next
      assume "b \<in> set (batch_loop (i + BATCH_SIZE) xs)"
      with "1.IH" True show ?thesis by simp
    qed
  next
    case False
    with "1.prems" show ?thesis by (subst (asm) batch_loop.simps) simp
  qed
qed

lemma step_div:
  assumes "0 < (m::nat)" and "0 < b"
  shows "Suc ((m - b + (b - 1)) div b) = (m + (b - 1)) div b"
proof (cases "b \<le> m")
  case True
  then obtain k where k: "m = k + b" by (metis le_add_diff_inverse2)
  have "k + b + (b - 1) = k + (b - 1) + b" by simp
  then have "(k + b + (b - 1)) div b = (k + (b - 1) + b) div b" by (rule arg_cong)
  also from assms(2) have "\<dots> = (k + (b - 1)) div b + 1" by (simp only: div_add_self2) 
  finally show ?thesis using k by simp
next
  case False
  then have z: "m - b = 0" by simp
  from assms(1) obtain j where j: "m = Suc j" by (cases m) auto
  with False have jb: "j < b" by simp
  have "(m + (b - 1)) div b = (j + b) div b" using j assms(2) by simp
  also from assms(2) have "\<dots> = j div b + 1" by (simp only: div_add_self2)
  also from jb have "\<dots> = 1" by simp
  finally have "(m + (b - 1)) div b = 1" .
  moreover from assms(2) have "(m - b + (b - 1)) div b = 0" using z by simp
  ultimately show ?thesis by simp
qed

lemma length_batch_loop:
  "length (batch_loop i xs) = (length xs - i + (BATCH_SIZE - 1)) div BATCH_SIZE"
proof (induction i xs rule: batch_loop.induct)
  case (1 i xs)
  show ?case
  proof (cases "i < length xs")
    case True
    with 1 have "length (batch_loop i xs)
        = Suc ((length xs - (i + BATCH_SIZE) + (BATCH_SIZE - 1)) div BATCH_SIZE)"
      by (subst batch_loop.simps) simp
    also from True have "\<dots> = (length xs - i + (BATCH_SIZE - 1)) div BATCH_SIZE"
      using step_div [of "length xs - i" BATCH_SIZE] by (simp add: BATCH_SIZE_def)
    finally show ?thesis .
  next
    case False
    then show ?thesis by (subst batch_loop.simps) (simp add: BATCH_SIZE_def)
  qed
qed

lemma first_rejection_None: "first_rejection ps = None \<longleftrightarrow> (\<forall>p \<in> set ps. snd p = None)"
  by (induction ps rule: first_rejection.induct) (auto split: option.splits)

lemma first_rejection_Some:
  "first_rejection ps = Some (t, msg) \<Longrightarrow>
     (t, Some msg) \<in> set ps \<and> (\<forall>(t', r) \<in> set ps. r \<noteq> None \<longrightarrow> t \<le> t')"
proof (induction ps arbitrary: t msg rule: first_rejection.induct)
  case 1
  then show ?case by simp
next
  case (2 t0 ps)
  then show ?case by auto
next
  case (3 t0 m0 ps)
  show ?case
  proof (cases "first_rejection ps")
    case None
    with 3 first_rejection_None [of ps] show ?thesis by auto
  next
    case (Some a)
    obtain t1 m1 where a: "a = (t1, m1)" by (cases a)
    from "3.IH" [of t1 m1] Some a
    have ih: "(t1, Some m1) \<in> set ps \<and> (\<forall>(t', r) \<in> set ps. r \<noteq> None \<longrightarrow> t1 \<le> t')"
      by simp
    from "3.prems" Some a have "(t, msg) = (if t0 \<le> t1 then (t0, m0) else (t1, m1))"
      by (simp split: if_splits)
    with ih show ?thesis by (auto split: if_splits)
  qed
qed


lemma promise_all_fulfilled:
  "promise_all (map f [0..<n]) = Inr () \<longleftrightarrow> (\<forall>k<n. snd (f k) = None)"
proof -
  have "promise_all (map f [0..<n]) = Inr () \<longleftrightarrow> first_rejection (map f [0..<n]) = None"
    by (auto simp: promise_all_def split: option.splits)
  then show ?thesis by (auto simp: first_rejection_None)
qed

lemma promise_all_rejected:
  assumes "k < n" and "snd (f k) \<noteq> None"
  shows "\<exists>j<n. \<exists>msg. snd (f j) = Some msg \<and> promise_all (map f [0..<n]) = Inl (StoreError msg) \<and>
           (\<forall>i<n. snd (f i) \<noteq> None \<longrightarrow> fst (f j) \<le> fst (f i))"
proof -
  from assms have "first_rejection (map f [0..<n]) \<noteq> None"
    by (auto simp: first_rejection_None)
  then obtain t msg where fr: "first_rejection (map f [0..<n]) = Some (t, msg)"
    by (cases "first_rejection (map f [0..<n])") auto
  from first_rejection_Some [OF fr]
  have mem: "(t, Some msg) \<in> set (map f [0..<n])"
    and least: "\<forall>(t', r) \<in> set (map f [0..<n]). r \<noteq> None \<longrightarrow> t \<le> t'"
    by auto
  from mem obtain j where j: "j < n" "f j = (t, Some msg)" by auto
  have "fst (f j) \<le> fst (f i)" if "i < n" "snd (f i) \<noteq> None" for i
  proof -
    from that(1) have "f i \<in> set (map f [0..<n])" by simp
    with least that(2) j(2) show ?thesis by (cases "f i") auto
  qed
  with j fr show ?thesis
    by (intro exI [of _ j]) (auto simp: promise_all_def)
qed

lemma set_committed:
  "set (committed (map f [0..<length bs]) bs)
     = {x. \<exists>k<length bs. snd (f k) = None \<and> x \<in> set (bs ! k)}"
  by (auto simp: committed_def set_zip)


lemma gone_iff:
  "fst d \<in> fst ` set (committed (map f [0..<length bs]) bs) \<longleftrightarrow> purged f bs d"
  unfolding set_committed purged_def list_ex_iff by force

lemma purge_unfold:
  assumes "subjects faculty \<noteq> []"
    and "filter (\<lambda>d. rec_subject (snd d) \<in> set (subjects faculty)) docs \<noteq> []"
  shows "deleteAllAttendanceRecords (Some docs) (Some FacultyRole) (Some faculty) commit_result
    = (let bs = batch_loop 0 (filter (\<lambda>d. rec_subject (snd d) \<in> set (subjects faculty)) docs);
           res = map commit_result [0..<length bs]
       in \<lparr>outcome = promise_all res, issued = bs,
           db_after = Some (filter (\<lambda>d. fst d \<notin> set (map fst (committed res bs))) docs)\<rparr>)"
  using assms by (simp add: deleteAllAttendanceRecords_def Let_def)

lemma bulk_matching:
  "filter (\<lambda>d. rec_subject (snd d) \<in> set (subjects rao)) bulk_ledger = bulk_ledger"
  by (simp add: bulk_ledger_def rao_def filter_map comp_def)

lemma bulk_batches: "length (batch_loop 0 bulk_ledger) = 3"
  by (simp add: length_batch_loop BATCH_SIZE_def bulk_ledger_def)

lemma upt_3: "[0..<3] = [0, 1, 2]"
  by code_simp

text \<open>
  C8 (bulk purge), as the code implements it. For a faculty with subjects, the whole
  collection is read and the documents whose subject is one of the faculty's are split,
  in order, into batches of at most 500: \<open>N\<close> documents give \<open>(N + 499) div 500\<close>
  commits, all of them issued whatever the commits answer. The call succeeds exactly when
  every commit is fulfilled. When some commit is rejected the call fails with one reason,
  that of the commit rejected first, and no other failure is reported. In both cases the
  documents of the fulfilled batches are gone from the collection and all others remain:
  nothing is rolled back.
\<close>

theorem bulk_purge:
  assumes "subjects faculty \<noteq> []"
  shows
    "(let r = deleteAllAttendanceRecords (Some docs) (Some FacultyRole) (Some faculty) commit_result;
          matching = filter (\<lambda>d. rec_subject (snd d) \<in> set (subjects faculty)) docs;
          n = length (issued r)
      in concat (issued r) = matching \<and>
         (\<forall>b \<in> set (issued r). 0 < length b \<and> length b \<le> 500) \<and>
         n = (length matching + 499) div 500 \<and>
         (outcome r = Inr () \<longleftrightarrow> (\<forall>k<n. snd (commit_result k) = None)) \<and>
         ((\<exists>k<n. snd (commit_result k) \<noteq> None) \<longrightarrow>
            (\<exists>j<n. \<exists>msg. snd (commit_result j) = Some msg \<and>
               outcome r = Inl (StoreError msg) \<and> reported_failures r = [msg] \<and>
               (\<forall>i<n. snd (commit_result i) \<noteq> None \<longrightarrow>
                  fst (commit_result j) \<le> fst (commit_result i)))) \<and>
         db_after r = Some (filter (\<lambda>d. \<not> purged commit_result (issued r) d) docs))"
proof (cases "filter (\<lambda>d. rec_subject (snd d) \<in> set (subjects faculty)) docs = []")
  case True
  with assms show ?thesis
    by (simp add: deleteAllAttendanceRecords_def Let_def purged_def)
next
  case False
  let ?m = "filter (\<lambda>d. rec_subject (snd d) \<in> set (subjects faculty)) docs"
  let ?bs = "batch_loop 0 ?m"
  let ?res = "map commit_result [0..<length ?bs]"
  let ?r = "deleteAllAttendanceRecords (Some docs) (Some FacultyRole) (Some faculty) commit_result"
  from False assms have iss: "issued ?r = ?bs" and out: "outcome ?r = promise_all ?res"
    and after: "db_after ?r
      = Some (filter (\<lambda>d. fst d \<notin> set (map fst (committed ?res ?bs))) docs)"
    by (simp_all add: purge_unfold Let_def)
  have c1: "concat ?bs = ?m" by (simp add: concat_batch_loop)
  have c2: "\<forall>b \<in> set ?bs. 0 < length b \<and> length b \<le> 500"
    using batch_loop_sizes [of _ 0 ?m] by (auto simp: BATCH_SIZE_def)
  have c3: "length ?bs = (length ?m + 499) div 500"
    by (simp add: length_batch_loop BATCH_SIZE_def)
  have c4: "promise_all ?res = Inr () \<longleftrightarrow> (\<forall>k<length ?bs. snd (commit_result k) = None)"
    by (rule promise_all_fulfilled)
  have c5: "(\<exists>k<length ?bs. snd (commit_result k) \<noteq> None) \<longrightarrow>
            (\<exists>j<length ?bs. \<exists>msg. snd (commit_result j) = Some msg \<and>
               outcome ?r = Inl (StoreError msg) \<and> reported_failures ?r = [msg] \<and>
               (\<forall>i<length ?bs. snd (commit_result i) \<noteq> None \<longrightarrow>
                  fst (commit_result j) \<le> fst (commit_result i)))"
  proof
    assume "\<exists>k<length ?bs. snd (commit_result k) \<noteq> None"
    then obtain k where k: "k < length ?bs" "snd (commit_result k) \<noteq> None" by blast
    from promise_all_rejected [of k "length ?bs" commit_result, OF k] obtain j msg where
      "j < length ?bs" "snd (commit_result j) = Some msg" "promise_all ?res = Inl (StoreError msg)"
      "\<forall>i<length ?bs. snd (commit_result i) \<noteq> None \<longrightarrow> fst (commit_result j) \<le> fst (commit_result i)"
      by blast
    with out show "\<exists>j<length ?bs. \<exists>msg. snd (commit_result j) = Some msg \<and>
               outcome ?r = Inl (StoreError msg) \<and> reported_failures ?r = [msg] \<and>
               (\<forall>i<length ?bs. snd (commit_result i) \<noteq> None \<longrightarrow>
                  fst (commit_result j) \<le> fst (commit_result i))"
      by (intro exI [of _ j]) (simp add: reported_failures_def)
  qed
  have "(fst d \<notin> set (map fst (committed ?res ?bs))) = (\<not> purged commit_result ?bs d)" for d
    using gone_iff [of d commit_result ?bs] by simp
  then have c6: "filter (\<lambda>d. fst d \<notin> set (map fst (committed ?res ?bs))) docs
      = filter (\<lambda>d. \<not> purged commit_result ?bs d) docs"
    by simp
  from iss out after c1 c2 c3 c4 c5 c6 show ?thesis
    by (simp add: Let_def)
qed


text \<open>
  C8 as stated fails for the report of failures: with 1200 documents in 3 batches of which
  the second and the third are rejected, the caller gets the reason of the second only.
\<close>

theorem purge_reports_one_failure_counterexample:
  "length (issued (deleteAllAttendanceRecords (Some bulk_ledger) (Some FacultyRole) (Some rao)
      two_fail)) = 3 \<and>
   failed_batches two_fail 3 = [(1, ''e2''), (2, ''e3'')] \<and>
   reported_failures (deleteAllAttendanceRecords (Some bulk_ledger) (Some FacultyRole) (Some rao)
      two_fail) = [''e2'']"
proof -
  have ne: "bulk_ledger \<noteq> []" by (simp add: bulk_ledger_def)
  have sub: "subjects rao \<noteq> []" by (simp add: rao_def)
  from ne bulk_matching
  have r: "deleteAllAttendanceRecords (Some bulk_ledger) (Some FacultyRole) (Some rao) two_fail
    = (let bs = batch_loop 0 bulk_ledger; res = map two_fail [0..<length bs]
       in \<lparr>outcome = promise_all res, issued = bs,
           db_after = Some (filter (\<lambda>d. fst d \<notin> set (map fst (committed res bs))) bulk_ledger)\<rparr>)"
    using purge_unfold [OF sub, of bulk_ledger two_fail] by simp
  have "promise_all (map two_fail [0..<3]) = Inl (StoreError ''e2'')"
    by (simp add: upt_3 two_fail_def promise_all_def)
  with r bulk_batches show ?thesis
    by (simp add: Let_def reported_failures_def failed_batches_def upt_3 two_fail_def)
qed

theorem bulk_purge_witness:
  "subjects rao \<noteq> [] \<and>
   length (issued (deleteAllAttendanceRecords (Some bulk_ledger) (Some FacultyRole) (Some rao)
      second_fails)) = 3 \<and>
   outcome (deleteAllAttendanceRecords (Some bulk_ledger) (Some FacultyRole) (Some rao)
      second_fails) \<noteq> Inr ()"
proof -
  have sub: "subjects rao \<noteq> []" by (simp add: rao_def)
  have len: "length bulk_ledger = 1200" by (simp add: bulk_ledger_def)
  have bad: "snd (second_fails 1) \<noteq> None" by (simp add: second_fails_def)
  from bulk_purge [OF sub, of bulk_ledger second_fails] bulk_matching len
  have n: "length (issued (deleteAllAttendanceRecords (Some bulk_ledger) (Some FacultyRole)
             (Some rao) second_fails)) = 3"
    and "outcome (deleteAllAttendanceRecords (Some bulk_ledger) (Some FacultyRole) (Some rao)
           second_fails) = Inr () \<longleftrightarrow>
         (\<forall>k<3. snd (second_fails k) = None)"
    by (simp_all add: Let_def)
  with bad sub show ?thesis by auto
qed


end
